theory Spec2Isabelle
  imports Complex_Main
begin

section \<open>Python strings\<close>

text \<open>
  A Python \<open>str\<close> is modelled as a \<open>string\<close> whose characters stand for the code
  points below 256.  On that range \<open>str.lower\<close> moves \<open>A\<close>..\<open>Z\<close> and the
  capital letters 192..222 (without the multiplication sign 215) up by 32, and
  \<open>str.isspace\<close> holds for 9..13, 28..32, 133 and 160.
\<close>

definition lower_char :: "char \<Rightarrow> char" where
  "lower_char c =
     (let n = (of_char c :: nat)
      in if (65 \<le> n \<and> n \<le> 90) \<or> (192 \<le> n \<and> n \<le> 222 \<and> n \<noteq> 215)
         then char_of (n + 32) else c)"

definition lower :: "string \<Rightarrow> string" where
  "lower s = map lower_char s"

definition is_space :: "char \<Rightarrow> bool" where
  "is_space c =
     (let n = (of_char c :: nat)
      in (9 \<le> n \<and> n \<le> 13) \<or> (28 \<le> n \<and> n \<le> 32) \<or> n = 133 \<or> n = 160)"

definition strip :: "string \<Rightarrow> string" where
  "strip s = rev (dropWhile is_space (rev (dropWhile is_space s)))"

definition starts_with :: "string \<Rightarrow> string \<Rightarrow> bool" where
  "starts_with s p = (take (length p) s = p)"

definition ends_with :: "string \<Rightarrow> string \<Rightarrow> bool" where
  "ends_with s p = (length p \<le> length s \<and> drop (length s - length p) s = p)"

text \<open>\<open>s.split(c)\<close> for a separator of one character: every occurrence cuts, and
  empty pieces are kept, so the result is never the empty list.\<close>

fun split_on :: "char \<Rightarrow> string \<Rightarrow> string list" where
  "split_on c [] = [[]]"
| "split_on c (x # xs) =
     (if x = c then [] # split_on c xs
      else (case split_on c xs of
              [] \<Rightarrow> [[x]]
            | p # ps \<Rightarrow> (x # p) # ps))"

text \<open>\<open>sep.join(parts)\<close>.\<close>

fun join :: "string \<Rightarrow> string list \<Rightarrow> string" where
  "join sep [] = []"
| "join sep [p] = p"
| "join sep (p # q # ps) = p @ sep @ join sep (q # ps)"

text \<open>The characters that cannot be written inside the quotes of this text.\<close>

definition dquote :: char where "dquote = CHR 0x22"
definition backslash :: char where "backslash = CHR 0x5C"
definition newline :: char where "newline = CHR 0x0A"

text \<open>\<open>s.replace(c, new)\<close> for a single character \<open>c\<close>.\<close>

definition replace_char :: "char \<Rightarrow> string \<Rightarrow> string \<Rightarrow> string" where
  "replace_char c new s = concat (map (\<lambda>x. if x = c then new else [x]) s)"

text \<open>\<open>str(n)\<close> for an integer.\<close>

definition digit_char :: "nat \<Rightarrow> char" where
  "digit_char d = char_of (48 + d)"

fun show_nat :: "nat \<Rightarrow> string" where
  "show_nat n = (if n < 10 then [digit_char n] else show_nat (n div 10) @ [digit_char (n mod 10)])"

declare show_nat.simps [simp del]

definition show_int :: "int \<Rightarrow> string" where
  "show_int i = (if i < 0 then CHR ''-'' # show_nat (nat (- i)) else show_nat (nat i))"

definition is_digit :: "char \<Rightarrow> bool" where
  "is_digit c = (48 \<le> (of_char c :: nat) \<and> (of_char c :: nat) \<le> 57)"

definition digit_value :: "char \<Rightarrow> int" where
  "digit_value c = int (of_char c) - 48"

text \<open>
  \<open>int(s)\<close> for a string, on code points below 256: white space around is dropped, a
  sign may lead, and the digits may be grouped by single underscores.  \<open>None\<close> is the
  \<open>ValueError\<close>.  The cap that recent interpreters put on the number of digits is left
  out.
\<close>

fun read_digits :: "int \<Rightarrow> bool \<Rightarrow> string \<Rightarrow> int option" where
  "read_digits acc prev [] = (if prev then Some acc else None)"
| "read_digits acc prev (c # cs) =
     (if is_digit c then read_digits (10 * acc + digit_value c) True cs
      else if c = CHR ''_'' \<and> prev then read_digits acc False cs
      else None)"

definition int_of_str :: "string \<Rightarrow> int option" where
  "int_of_str s =
     (case strip s of
        [] \<Rightarrow> None
      | c # cs \<Rightarrow>
          if c = CHR ''-'' then map_option uminus (read_digits 0 False cs)
          else if c = CHR ''+'' then read_digits 0 False cs
          else read_digits 0 False (c # cs))"

section \<open>Errors\<close>

text \<open>The exceptions the program raises, each with its message where the source
  gives one.\<close>

datatype error =
    ValueError string
  | RuntimeError string
  | OverflowError string
  | TOMLDecodeError
  | PortAudioError string
  | OtherError string

text \<open>\<open>str(exc)\<close>, as the report lines print it.  The wording of a decode error
  of the TOML reader carries a position and is not modelled.\<close>

fun message :: "error \<Rightarrow> string" where
  "message (ValueError m) = m"
| "message (RuntimeError m) = m"
| "message (OverflowError m) = m"
| "message TOMLDecodeError = ''Invalid TOML document''"
| "message (PortAudioError m) = m"
| "message (OtherError m) = m"

section \<open>Hotkey chords\<close>

definition token_map :: "(string \<times> string) list" where
  "token_map =
     [(''ctrl'', ''<ctrl>''), (''control'', ''<ctrl>''),
      (''alt'', ''<alt>''), (''option'', ''<alt>''),
      (''shift'', ''<shift>''),
      (''cmd'', ''<cmd>''), (''command'', ''<cmd>''),
      (''win'', ''<cmd>''), (''windows'', ''<cmd>'')]"

text \<open>The body of the loop over the parts of the chord.\<close>

definition normalize_part :: "string \<Rightarrow> string" where
  "normalize_part part =
     (let raw = lower part
      in if starts_with raw ''<'' \<and> ends_with raw ''>'' then raw
         else (case map_of token_map raw of Some v \<Rightarrow> v | None \<Rightarrow> raw))"

definition hotkey_parts :: "string \<Rightarrow> string list" where
  "hotkey_parts hotkey =
     map strip (filter (\<lambda>part. strip part \<noteq> []) (split_on CHR ''+'' hotkey))"

definition normalize_hotkey :: "string \<Rightarrow> error + string" where
  "normalize_hotkey hotkey =
     (let parts = hotkey_parts hotkey
      in if parts = [] then Inl (ValueError ''Hotkey is leeg.'')
         else Inr (join ''+'' (map normalize_part parts)))"

text \<open>A part as the list comprehension leaves it: not empty, no white space at
  either end, no separator inside.\<close>

definition clean_part :: "string \<Rightarrow> bool" where
  "clean_part p =
     (p \<noteq> [] \<and> \<not> is_space (hd p) \<and> \<not> is_space (last p) \<and> CHR ''+'' \<notin> set p)"

section \<open>Language codes\<close>

definition google_defaults :: "(string \<times> string) list" where
  "google_defaults =
     [(''nl'', ''nl-NL''), (''en'', ''en-US''), (''de'', ''de-DE''),
      (''fr'', ''fr-FR''), (''es'', ''es-ES'')]"

definition normalize_google_language :: "string \<Rightarrow> string" where
  "normalize_google_language language =
     (if CHR ''-'' \<in> set language then language
      else (case map_of google_defaults (lower language) of
              Some v \<Rightarrow> v
            | None \<Rightarrow> language))"

definition normalize_assemblyai_language :: "string \<Rightarrow> string" where
  "normalize_assemblyai_language language =
     (if CHR ''-'' \<in> set language then takeWhile (\<lambda>c. c \<noteq> CHR ''-'') language
      else language)"

section \<open>Configuration\<close>

record app_config =
  engine :: string
  hotkey :: string
  language :: string
  sample_rate :: int
  append_space :: bool
  whisper_model :: string
  whisper_device :: string
  whisper_compute_type :: string
  assemblyai_api_key :: string
  google_credentials_path :: string
  gemini_api_key :: string

text \<open>\<open>AppConfig()\<close>: the defaults of the dataclass.\<close>

definition AppConfig :: app_config where
  "AppConfig =
     \<lparr>engine = ''whisper'', hotkey = ''<ctrl>+<alt>+d'', language = ''nl'',
      sample_rate = 16000, append_space = True, whisper_model = ''small'',
      whisper_device = ''auto'', whisper_compute_type = ''int8'',
      assemblyai_api_key = '''', google_credentials_path = '''',
      gemini_api_key = ''''\<rparr>"

subsection \<open>Values of a parsed document\<close>

text \<open>
  What the TOML reader can hand over for a key.  A float is a rational or one of the
  three special values; an array, a table, a date or a time is kept as the text that
  \<open>str\<close> gives for it, which is all the program can see of it.
\<close>

datatype pyfloat = Finite rat | PosInf | NegInf | NaN

datatype toml_value =
    TStr string
  | TInt int
  | TFloat pyfloat
  | TBool bool
  | TOther string

type_synonym document = "string \<rightharpoonup> toml_value"

text \<open>\<open>str(value)\<close>; \<open>float_repr\<close> is the interpreter's printing of a float.\<close>

fun str :: "(pyfloat \<Rightarrow> string) \<Rightarrow> toml_value \<Rightarrow> string" where
  "str float_repr (TStr s) = s"
| "str float_repr (TInt i) = show_int i"
| "str float_repr (TFloat f) = float_repr f"
| "str float_repr (TBool b) = (if b then ''True'' else ''False'')"
| "str float_repr (TOther text) = text"

text \<open>The three readers of a value; \<open>None\<close> is Python's \<open>None\<close>, what \<open>data.get\<close>
  returns for a key that is absent.\<close>

definition as_bool :: "toml_value option \<Rightarrow> bool \<Rightarrow> bool" where
  "as_bool v dflt =
     (case v of
        Some (TBool b) \<Rightarrow> b
      | Some (TInt i) \<Rightarrow> i \<noteq> 0
      | Some (TFloat f) \<Rightarrow> f \<noteq> Finite 0
      | Some (TStr s) \<Rightarrow> lower (strip s) \<in> set [''1'', ''true'', ''yes'', ''y'', ''on'']
      | _ \<Rightarrow> dflt)"

text \<open>\<open>int(value)\<close> raises \<open>TypeError\<close> on \<open>None\<close> and on arrays, tables and dates,
  \<open>ValueError\<close> on a string that is no number and on a NaN, and \<open>OverflowError\<close>, which
  \<open>_as_int\<close> does not catch, on an infinite float.\<close>

definition as_int :: "toml_value option \<Rightarrow> int \<Rightarrow> error + int" where
  "as_int v dflt =
     (case v of
        None \<Rightarrow> Inr dflt
      | Some (TInt i) \<Rightarrow> Inr i
      | Some (TBool b) \<Rightarrow> Inr (if b then 1 else 0)
      | Some (TFloat (Finite q)) \<Rightarrow> Inr (if 0 \<le> q then \<lfloor>q\<rfloor> else \<lceil>q\<rceil>)
      | Some (TFloat NaN) \<Rightarrow> Inr dflt
      | Some (TFloat _) \<Rightarrow> Inl (OverflowError ''cannot convert float infinity to integer'')
      | Some (TStr s) \<Rightarrow> (case int_of_str s of Some i \<Rightarrow> Inr i | None \<Rightarrow> Inr dflt)
      | Some (TOther _) \<Rightarrow> Inr dflt)"

definition as_str :: "(pyfloat \<Rightarrow> string) \<Rightarrow> toml_value option \<Rightarrow> string \<Rightarrow> string" where
  "as_str float_repr v dflt =
     (case v of None \<Rightarrow> dflt | Some x \<Rightarrow> str float_repr x)"

subsection \<open>Loading\<close>

text \<open>The second half of \<open>load_config\<close>: the record built from the parsed document.
  Only the reading of \<open>sample_rate\<close> can raise.\<close>

definition config_of_data :: "(pyfloat \<Rightarrow> string) \<Rightarrow> document \<Rightarrow> error + app_config" where
  "config_of_data float_repr data =
     (let config = AppConfig
      in case as_int (data ''sample_rate'') (sample_rate config) of
           Inl exc \<Rightarrow> Inl exc
         | Inr rate \<Rightarrow>
             Inr \<lparr>engine = lower (as_str float_repr (data ''engine'') (engine config)),
                  hotkey = as_str float_repr (data ''hotkey'') (hotkey config),
                  language = as_str float_repr (data ''language'') (language config),
                  sample_rate = rate,
                  append_space = as_bool (data ''append_space'') (append_space config),
                  whisper_model = as_str float_repr (data ''whisper_model'') (whisper_model config),
                  whisper_device =
                    as_str float_repr (data ''whisper_device'') (whisper_device config),
                  whisper_compute_type =
                    as_str float_repr (data ''whisper_compute_type'') (whisper_compute_type config),
                  assemblyai_api_key = as_str float_repr (data ''assemblyai_api_key'') '''',
                  google_credentials_path =
                    as_str float_repr (data ''google_credentials_path'') '''',
                  gemini_api_key = as_str float_repr (data ''gemini_api_key'') ''''\<rparr>)"

text \<open>
  \<open>load_config\<close>.  The files that hold text are a map from paths to their content;
  \<open>loads\<close> is the TOML reader, which either raises or returns the document.
\<close>

type_synonym text_files = "string \<rightharpoonup> string"

definition load_config ::
  "(pyfloat \<Rightarrow> string) \<Rightarrow> (string \<Rightarrow> error + document) \<Rightarrow> text_files \<Rightarrow> string
     \<Rightarrow> error + app_config" where
  "load_config float_repr loads fs config_path =
     (case fs config_path of
        None \<Rightarrow> Inr AppConfig
      | Some content \<Rightarrow>
          (case loads content of
             Inl exc \<Rightarrow> Inl exc
           | Inr data \<Rightarrow> config_of_data float_repr data))"

subsection \<open>Saving\<close>

definition quote :: "string \<Rightarrow> string" where
  "quote v =
     (let escaped = replace_char dquote [backslash, dquote]
                      (replace_char backslash [backslash, backslash] v)
      in [dquote] @ escaped @ [dquote])"

definition config_lines :: "app_config \<Rightarrow> string list" where
  "config_lines config =
     [''engine = '' @ quote (engine config),
      ''hotkey = '' @ quote (hotkey config),
      ''language = '' @ quote (language config),
      ''sample_rate = '' @ show_int (sample_rate config),
      ''append_space = '' @ (if append_space config then ''true'' else ''false''),
      ''whisper_model = '' @ quote (whisper_model config),
      ''whisper_device = '' @ quote (whisper_device config),
      ''whisper_compute_type = '' @ quote (whisper_compute_type config),
      ''assemblyai_api_key = '' @ quote (assemblyai_api_key config),
      ''google_credentials_path = '' @ quote (google_credentials_path config),
      ''gemini_api_key = '' @ quote (gemini_api_key config),
      '''']"

definition save_config :: "app_config \<Rightarrow> text_files \<Rightarrow> string \<Rightarrow> text_files" where
  "save_config config fs config_path = fs(config_path \<mapsto> join [newline] (config_lines config))"

subsection \<open>The TOML reader, for flat documents\<close>

text \<open>
  A model of \<open>tomllib.load\<close> on the documents that \<open>save_config\<close> writes and their
  like: blank lines, comment lines and lines \<open>key = value\<close> with a bare key and a value
  that is a one-line basic string (with the escapes \<open>b t n f r\<close>, the quote and the
  backslash), a decimal integer, \<open>true\<close> or \<open>false\<close>.  On these it follows the
  reader step by step, and \<open>None\<close> is its decode error.  Tables, arrays, floats, dates,
  literal and multi-line strings, quoted and dotted keys, \<open>\u\<close> escapes and integers
  in another base are outside the model, which rejects them.
\<close>

definition tab :: char where "tab = CHR 0x09"

definition is_ws :: "char \<Rightarrow> bool" where
  "is_ws c = (c = CHR '' '' \<or> c = tab)"

text \<open>The ASCII control characters without the tab: not allowed raw in a basic string
  or in a comment.\<close>

definition illegal_ctrl :: "char \<Rightarrow> bool" where
  "illegal_ctrl c = (((of_char c :: nat) < 32 \<and> c \<noteq> tab) \<or> (of_char c :: nat) = 127)"

definition bare_key_char :: "char \<Rightarrow> bool" where
  "bare_key_char c =
     (let n = (of_char c :: nat)
      in (65 \<le> n \<and> n \<le> 90) \<or> (97 \<le> n \<and> n \<le> 122) \<or> (48 \<le> n \<and> n \<le> 57)
         \<or> c = CHR ''-'' \<or> c = CHR ''_'')"

text \<open>The reader first replaces every carriage return that is followed by a line feed.\<close>

fun crlf :: "string \<Rightarrow> string" where
  "crlf (c # d # cs) = (if c = CHR 0x0D \<and> d = newline then newline # crlf cs else c # crlf (d # cs))"
| "crlf cs = cs"

definition basic_escape :: "char \<Rightarrow> char option" where
  "basic_escape c =
     (if c = CHR ''b'' then Some (CHR 0x08)
      else if c = CHR ''t'' then Some tab
      else if c = CHR ''n'' then Some newline
      else if c = CHR ''f'' then Some (CHR 0x0C)
      else if c = CHR ''r'' then Some (CHR 0x0D)
      else if c = dquote then Some dquote
      else if c = backslash then Some backslash
      else None)"

text \<open>The text after an opening quote: the string up to the closing quote, and what
  follows it.\<close>

fun parse_basic_str :: "string \<Rightarrow> (string \<times> string) option" where
  "parse_basic_str [] = None"
| "parse_basic_str (c # cs) =
     (if c = dquote then Some ([], cs)
      else if c = backslash then
        (case cs of
           [] \<Rightarrow> None
         | e # rest \<Rightarrow>
             (case basic_escape e of
                None \<Rightarrow> None
              | Some x \<Rightarrow>
                  (case parse_basic_str rest of
                     None \<Rightarrow> None
                   | Some (s, r) \<Rightarrow> Some (x # s, r))))
      else if illegal_ctrl c then None
      else (case parse_basic_str cs of
              None \<Rightarrow> None
            | Some (s, r) \<Rightarrow> Some (c # s, r)))"

fun more_digits :: "int \<Rightarrow> string \<Rightarrow> int \<times> string" where
  "more_digits acc [] = (acc, [])"
| "more_digits acc (c # cs) =
     (if is_digit c then more_digits (10 * acc + digit_value c) cs
      else if c = CHR ''_'' then
        (case cs of
           [] \<Rightarrow> (acc, c # cs)
         | d # ds \<Rightarrow>
             if is_digit d then more_digits (10 * acc + digit_value d) ds else (acc, c # cs))
      else (acc, c # cs))"

definition unsigned_dec :: "string \<Rightarrow> (int \<times> string) option" where
  "unsigned_dec s =
     (case s of
        [] \<Rightarrow> None
      | c # cs \<Rightarrow>
          if c = CHR ''0'' then Some (0, cs)
          else if is_digit c then Some (more_digits (digit_value c) cs)
          else None)"

definition parse_dec :: "string \<Rightarrow> (int \<times> string) option" where
  "parse_dec s =
     (case s of
        [] \<Rightarrow> None
      | c # cs \<Rightarrow>
          if c = CHR ''+'' then unsigned_dec cs
          else if c = CHR ''-'' then
            (case unsigned_dec cs of None \<Rightarrow> None | Some (n, r) \<Rightarrow> Some (- n, r))
          else unsigned_dec s)"

definition parse_value :: "string \<Rightarrow> (toml_value \<times> string) option" where
  "parse_value s =
     (if starts_with s [dquote, dquote, dquote] then None
      else
        (case s of
           [] \<Rightarrow> None
         | c # cs \<Rightarrow>
             if c = dquote then
               (case parse_basic_str cs of None \<Rightarrow> None | Some (t, r) \<Rightarrow> Some (TStr t, r))
             else if starts_with s ''true'' then Some (TBool True, drop 4 s)
             else if starts_with s ''false'' then Some (TBool False, drop 5 s)
             else (case parse_dec s of None \<Rightarrow> None | Some (n, r) \<Rightarrow> Some (TInt n, r))))"

text \<open>After a value only blanks and a comment may come before the end of the line.\<close>

definition end_of_statement :: "string \<Rightarrow> bool" where
  "end_of_statement r =
     (case dropWhile is_ws r of
        [] \<Rightarrow> True
      | c # cs \<Rightarrow> c = CHR ''#'' \<and> filter illegal_ctrl cs = [])"

text \<open>A line: a decode error (\<open>None\<close>), nothing to record, or a key with its value.\<close>

definition parse_line :: "string \<Rightarrow> (string \<times> toml_value) option option" where
  "parse_line l =
     (let l1 = dropWhile is_ws l
      in case l1 of
           [] \<Rightarrow> Some None
         | c # cs \<Rightarrow>
             if c = CHR ''#'' then (if filter illegal_ctrl cs = [] then Some None else None)
             else if bare_key_char c then
               (let key = takeWhile bare_key_char l1;
                    r1 = dropWhile is_ws (dropWhile bare_key_char l1)
                in case r1 of
                     [] \<Rightarrow> None
                   | e # r2 \<Rightarrow>
                       if e = CHR ''='' then
                         (case parse_value (dropWhile is_ws r2) of
                            None \<Rightarrow> None
                          | Some (v, r3) \<Rightarrow>
                              if end_of_statement r3 then Some (Some (key, v)) else None)
                       else None)
             else None)"

text \<open>The lines in order; a key that is given twice is an error.\<close>

fun load_lines :: "string list \<Rightarrow> document \<Rightarrow> error + document" where
  "load_lines [] data = Inr data"
| "load_lines (l # ls) data =
     (case parse_line l of
        None \<Rightarrow> Inl TOMLDecodeError
      | Some None \<Rightarrow> load_lines ls data
      | Some (Some (k, v)) \<Rightarrow>
          if data k \<noteq> None then Inl TOMLDecodeError else load_lines ls (data(k \<mapsto> v)))"

definition toml_loads :: "string \<Rightarrow> error + document" where
  "toml_loads content = load_lines (split_on newline (crlf content)) Map.empty"

text \<open>The printing of floats is not modelled; where none is read, any will do.\<close>

definition no_float_repr :: "pyfloat \<Rightarrow> string" where
  "no_float_repr f = []"

text \<open>A configuration none of whose texts holds a control character that a basic
  string cannot hold raw.\<close>

definition storable :: "app_config \<Rightarrow> bool" where
  "storable config =
     (filter illegal_ctrl
        (engine config @ hotkey config @ language config @ whisper_model config
         @ whisper_device config @ whisper_compute_type config @ assemblyai_api_key config
         @ google_credentials_path config @ gemini_api_key config) = [])"

text \<open>What \<open>quote\<close> writes for one character, and the number that a run of digits
  stands for: both serve the proofs about saving and loading.\<close>

definition esc :: "char \<Rightarrow> string" where
  "esc c = (if c = backslash then [backslash, backslash]
            else if c = dquote then [backslash, dquote] else [c])"

definition digits_val :: "int \<Rightarrow> string \<Rightarrow> int" where
  "digits_val acc ds = foldl (\<lambda>a c. 10 * a + digit_value c) acc ds"

section \<open>The recorder\<close>

type_synonym path = string

text \<open>
  A chunk is what one driver callback delivers.  Samples are rationals: the rounding of
  32-bit floats is not modelled.  A file of the store is the list of 16-bit samples of
  a mono container together with its frame rate.
\<close>

type_synonym chunk = "rat list"

record wav =
  nchannels :: nat
  sampwidth :: nat
  framerate :: int
  wav_frames :: "int list"

type_synonym store = "path \<rightharpoonup> wav"

text \<open>The stream handle: constructed, or constructed and started.\<close>

datatype stream_handle = Opened | Started

text \<open>What the audio driver does when a stream is asked for.\<close>

datatype device = DeviceOk | OpenFails string | StartFails string

record recorder =
  recorder_sample_rate :: int
  frames :: "chunk list"
  stream :: "stream_handle option"

definition AudioRecorder :: "int \<Rightarrow> recorder" where
  "AudioRecorder rate = \<lparr>recorder_sample_rate = rate, frames = [], stream = None\<rparr>"

definition callback :: "chunk \<Rightarrow> recorder \<Rightarrow> recorder" where
  "callback indata r = r\<lparr>frames := frames r @ [indata]\<rparr>"

definition start :: "device \<Rightarrow> recorder \<Rightarrow> (error + unit) \<times> recorder" where
  "start dev r =
     (if stream r \<noteq> None then (Inl (RuntimeError ''Opname is al gestart.''), r)
      else
        let r1 = r\<lparr>frames := []\<rparr>
        in (case dev of
              OpenFails m \<Rightarrow> (Inl (PortAudioError m), r1)
            | StartFails m \<Rightarrow> (Inl (PortAudioError m), r1\<lparr>stream := Some Opened\<rparr>)
            | DeviceOk \<Rightarrow> (Inr (), r1\<lparr>stream := Some Started\<rparr>)))"

text \<open>\<open>np.clip(x, -1.0, 1.0) * 32767\<close> cast to a 16-bit integer: the cast drops the
  fraction.\<close>

definition to_int16 :: "rat \<Rightarrow> int" where
  "to_int16 x =
     (let y = max (- 1) (min 1 x) * 32767
      in if 0 \<le> y then \<lfloor>y\<rfloor> else \<lceil>y\<rceil>)"

text \<open>\<open>_recording_to_wav\<close>; \<open>tmp\<close> is the name \<open>mkstemp\<close> hands out.\<close>

definition recording_to_wav :: "path \<Rightarrow> rat list \<Rightarrow> int \<Rightarrow> store \<Rightarrow> path \<times> store" where
  "recording_to_wav tmp audio_f32 rate fs =
     (tmp, fs(tmp \<mapsto> \<lparr>nchannels = 1, sampwidth = 2, framerate = rate,
                        wav_frames = map to_int16 audio_f32\<rparr>))"

text \<open>\<open>AudioRecorder.stop\<close>.  The driver's own \<open>stop\<close> and \<open>close\<close> are taken to
  return.\<close>

definition stop :: "path \<Rightarrow> recorder \<Rightarrow> store \<Rightarrow> (error + path) \<times> recorder \<times> store" where
  "stop tmp r fs =
     (case stream r of
        None \<Rightarrow> (Inl (RuntimeError ''Opname is niet actief.''), r, fs)
      | Some h \<Rightarrow>
          let r1 = r\<lparr>stream := None\<rparr>
          in if frames r1 = []
             then (Inl (RuntimeError ''Geen audio ontvangen. Controleer microfooninstellingen.''),
                   r1, fs)
             else
               let audio_data = concat (frames r1);
                   (p, fs1) = recording_to_wav tmp audio_data (recorder_sample_rate r1) fs
               in (Inr p, r1, fs1))"

section \<open>Transcribers\<close>

text \<open>
  What the constructors of the four variants find around them: which packages can be
  imported, the two keys of the process environment (empty when unset), and whether
  loading the local model or creating the cloud client raises.
\<close>

record environment =
  has_faster_whisper :: bool
  has_requests :: bool
  has_google_speech :: bool
  has_genai :: bool
  ASSEMBLYAI_API_KEY :: string
  GEMINI_API_KEY :: string
  whisper_model_error :: "error option"
  speech_client_error :: "error option"

text \<open>The variants, each with the fields its constructor stores.\<close>

datatype transcriber =
    Whisper "string option"
  | AssemblyAI string string
  | Google int string
  | Gemini string

text \<open>What a constructor does to the world while it runs, in order.\<close>

datatype effect =
    LoadWhisperModel string string string
  | SetEnvDefault string string
  | NewSpeechClient
  | ConfigureGenai string
  | NewGenerativeModel string

text \<open>\<open>a or b\<close> on strings.\<close>

definition or_else :: "string \<Rightarrow> string \<Rightarrow> string" where
  "or_else a b = (if a \<noteq> [] then a else b)"

definition WhisperTranscriber :: "environment \<Rightarrow> app_config \<Rightarrow> (error + transcriber) \<times> effect list" where
  "WhisperTranscriber env config =
     (if \<not> has_faster_whisper env then
        (Inl (RuntimeError
           ''faster-whisper ontbreekt. Installeer met: pip install -r requirements.txt''), [])
      else
        let loaded = [LoadWhisperModel (whisper_model config) (whisper_device config)
                        (whisper_compute_type config)]
        in (case whisper_model_error env of
              Some exc \<Rightarrow> (Inl exc, loaded)
            | None \<Rightarrow>
                (Inr (Whisper (if language config \<noteq> [] then Some (language config) else None)),
                 loaded)))"

definition AssemblyAITranscriber ::
  "environment \<Rightarrow> app_config \<Rightarrow> (error + transcriber) \<times> effect list" where
  "AssemblyAITranscriber env config =
     (if \<not> has_requests env then
        (Inl (RuntimeError
           ''requests ontbreekt. Installeer met: pip install -r requirements.txt''), [])
      else
        let api_key = or_else (assemblyai_api_key config) (ASSEMBLYAI_API_KEY env)
        in if api_key = [] then
             (Inl (RuntimeError
                ''AssemblyAI key ontbreekt. Zet assemblyai_api_key in config of ASSEMBLYAI_API_KEY.''),
              [])
           else
             (Inr (AssemblyAI api_key
                     (normalize_assemblyai_language (or_else (language config) ''nl''))), []))"

definition GoogleTranscriber :: "environment \<Rightarrow> app_config \<Rightarrow> (error + transcriber) \<times> effect list" where
  "GoogleTranscriber env config =
     (let set_env =
            (if google_credentials_path config \<noteq> []
             then [SetEnvDefault ''GOOGLE_APPLICATION_CREDENTIALS'' (google_credentials_path config)]
             else [])
      in if \<not> has_google_speech env then
           (Inl (RuntimeError
              ''google-cloud-speech ontbreekt. Installeer met: pip install -r requirements.txt''),
            set_env)
         else
           (case speech_client_error env of
              Some exc \<Rightarrow> (Inl exc, set_env @ [NewSpeechClient])
            | None \<Rightarrow>
                (Inr (Google (sample_rate config)
                        (normalize_google_language (or_else (language config) ''nl-NL''))),
                 set_env @ [NewSpeechClient])))"

definition GeminiTranscriber :: "environment \<Rightarrow> app_config \<Rightarrow> (error + transcriber) \<times> effect list" where
  "GeminiTranscriber env config =
     (if \<not> has_genai env then
        (Inl (RuntimeError
           ''google-generativeai ontbreekt. Installeer met: pip install google-generativeai''), [])
      else
        let api_key = or_else (gemini_api_key config) (GEMINI_API_KEY env)
        in if api_key = [] then
             (Inl (RuntimeError
                ''Gemini key ontbreekt. Zet gemini_api_key in config of GEMINI_API_KEY.''), [])
           else
             (Inr (Gemini (or_else (language config) ''nl'')),
              [ConfigureGenai api_key, NewGenerativeModel ''gemini-2.0-flash'']))"

definition create_transcriber :: "environment \<Rightarrow> app_config \<Rightarrow> (error + transcriber) \<times> effect list" where
  "create_transcriber env config =
     (if engine config = ''whisper'' then WhisperTranscriber env config
      else if engine config = ''assemblyai'' then AssemblyAITranscriber env config
      else if engine config = ''google'' then GoogleTranscriber env config
      else if engine config = ''gemini'' then GeminiTranscriber env config
      else (Inl (ValueError ''Ongeldige engine. Kies whisper, assemblyai, google of gemini.''), []))"

text \<open>The engine name that a variant answers to.\<close>

fun variant :: "transcriber \<Rightarrow> string" where
  "variant (Whisper _) = ''whisper''"
| "variant (AssemblyAI _ _) = ''assemblyai''"
| "variant (Google _ _) = ''google''"
| "variant (Gemini _) = ''gemini''"

text \<open>An environment in which every variant can be constructed.\<close>

definition provisioned :: "environment \<Rightarrow> bool" where
  "provisioned env =
     (has_faster_whisper env \<and> has_requests env \<and> has_google_speech env \<and> has_genai env
      \<and> ASSEMBLYAI_API_KEY env \<noteq> [] \<and> GEMINI_API_KEY env \<noteq> []
      \<and> whisper_model_error env = None \<and> speech_client_error env = None)"

section \<open>The orchestrator\<close>

text \<open>
  The state of \<open>VoiceTyperApp\<close> and of the world it acts on: its recorder and two flags,
  the files in temporary storage, the background threads started and not yet finished
  (each with the artifact it was given), the keystrokes sent so far and the lines
  printed.
\<close>

record app =
  rec :: recorder
  is_recording :: bool
  is_busy :: bool
  files :: store
  tasks :: "path list"
  typed :: string
  printed :: "string list"

definition VoiceTyperApp :: "app_config \<Rightarrow> app" where
  "VoiceTyperApp config =
     \<lparr>rec = AudioRecorder (sample_rate config), is_recording = False, is_busy = False,
      files = Map.empty, tasks = [], typed = [], printed = []\<rparr>"

definition print :: "string \<Rightarrow> app \<Rightarrow> app" where
  "print line s = s\<lparr>printed := printed s @ [line]\<rparr>"

definition toggle_recording :: "device \<Rightarrow> path \<Rightarrow> app \<Rightarrow> app" where
  "toggle_recording dev tmp s =
     (if is_busy s then print ''Nog bezig met de vorige transcriptie.'' s
      else if \<not> is_recording s then
        (case start dev (rec s) of
           (Inl exc, r) \<Rightarrow> print (''Kon opname niet starten: '' @ message exc) (s\<lparr>rec := r\<rparr>)
         | (Inr _, r) \<Rightarrow> print ''Opname gestart...'' (s\<lparr>rec := r, is_recording := True\<rparr>))
      else
        (case stop tmp (rec s) (files s) of
           (Inl exc, r, fs) \<Rightarrow>
             print (''Kon opname niet stoppen: '' @ message exc)
               (s\<lparr>rec := r, files := fs, is_recording := False\<rparr>)
         | (Inr audio_path, r, fs) \<Rightarrow>
             (print ''Transcriberen...''
               (s\<lparr>rec := r, files := fs, is_recording := False, is_busy := True\<rparr>))
             \<lparr>tasks := tasks s @ [audio_path]\<rparr>))"

text \<open>
  \<open>_transcribe_and_type\<close>.  What the transcriber answers for this artifact and whether
  the keystrokes can be sent are given from outside: \<open>answer\<close> is the text or the
  exception of \<open>transcribe\<close>, \<open>typing\<close> the exception of \<open>type_text\<close> if there is one.
  The last line is the \<open>finally\<close> block.
\<close>

definition transcribe_and_type ::
  "app_config \<Rightarrow> error + string \<Rightarrow> error option \<Rightarrow> path \<Rightarrow> app \<Rightarrow> app" where
  "transcribe_and_type config answer typing audio_path s =
     (let s1 =
        (case answer of
           Inl exc \<Rightarrow> print (''Transcriptie mislukt: '' @ message exc) s
         | Inr t \<Rightarrow>
             let text = strip t
             in if text = [] then print ''Geen tekst herkend.'' s
                else
                  let text_to_type = (if append_space config then text @ '' '' else text)
                  in (case typing of
                        Some exc \<Rightarrow> print (''Transcriptie mislukt: '' @ message exc) s
                      | None \<Rightarrow>
                          print (''Getypt: '' @ text) (s\<lparr>typed := typed s @ text_to_type\<rparr>)))
      in s1\<lparr>files := (files s1)(audio_path := None), is_busy := False\<rparr>)"

text \<open>What can happen to a running app: the hotkey is pressed, the driver delivers a
  chunk to an active stream, or a background thread runs to its end.\<close>

datatype event =
    Toggle device path
  | Callback chunk
  | Finish path "error + string" "error option"

definition step :: "app_config \<Rightarrow> app \<Rightarrow> event \<Rightarrow> app" where
  "step config s ev =
     (case ev of
        Toggle dev tmp \<Rightarrow> toggle_recording dev tmp s
      | Callback indata \<Rightarrow>
          (if stream (rec s) = Some Started then s\<lparr>rec := callback indata (rec s)\<rparr> else s)
      | Finish p answer typing \<Rightarrow>
          (if p \<in> set (tasks s)
           then (transcribe_and_type config answer typing p s)\<lparr>tasks := remove1 p (tasks s)\<rparr>
           else s))"

definition run :: "app_config \<Rightarrow> event list \<Rightarrow> app" where
  "run config evs = foldl (step config) (VoiceTyperApp config) evs"

section \<open>Facts about strings\<close>

lemma of_char_lower: "(of_char (lower_char c) :: nat) =
  (let n = of_char c in if (65 \<le> n \<and> n \<le> 90) \<or> (192 \<le> n \<and> n \<le> 222 \<and> n \<noteq> 215) then n + 32 else n)"
  by (simp add: lower_char_def Let_def)

lemma lower_char_idem: "lower_char (lower_char c) = lower_char c"
  unfolding of_char_eq_iff [where 'a=nat, symmetric] 
  by (simp add: of_char_lower Let_def) 

lemma is_space_lower_char: "is_space (lower_char c) = is_space c"
  by (auto simp add: is_space_def of_char_lower Let_def)

lemma lower_char_plus: "lower_char c = CHR ''+'' \<longleftrightarrow> c = CHR ''+''"
  unfolding of_char_eq_iff [where 'a=nat, symmetric] 
  by (auto simp add: of_char_lower Let_def)
lemma lower_char_lt: "lower_char c = CHR ''<'' \<longleftrightarrow> c = CHR ''<''"
  unfolding of_char_eq_iff [where 'a=nat, symmetric] 
  by (auto simp add: of_char_lower Let_def)
lemma lower_char_gt: "lower_char c = CHR ''>'' \<longleftrightarrow> c = CHR ''>''"
  unfolding of_char_eq_iff [where 'a=nat, symmetric] 
  by (auto simp add: of_char_lower Let_def)

lemma split_on_nonempty: "split_on c s \<noteq> []"
  by (induction s) (auto split: list.splits)

lemma split_on_no_sep: "p \<in> set (split_on c s) \<Longrightarrow> c \<notin> set p"
  by (induction s arbitrary: p) (auto split: if_splits list.splits)

lemma split_on_plain: "c \<notin> set p \<Longrightarrow> split_on c p = [p]"
  by (induction p) auto

lemma split_on_append: "c \<notin> set p \<Longrightarrow> split_on c (p @ c # rest) = p # split_on c rest"
  by (induction p) auto

lemma split_on_join:
  "xs \<noteq> [] \<Longrightarrow> \<forall>x\<in>set xs. c \<notin> set x \<Longrightarrow> split_on c (join [c] xs) = xs"
  by (induction "[c]" xs rule: join.induct) (simp_all add: split_on_plain split_on_append)

lemma set_strip: "set (strip s) \<subseteq> set s"
  unfolding strip_def by (metis set_dropWhileD set_rev subsetI)

lemma dropWhile_keep: "xs \<noteq> [] \<Longrightarrow> \<not> P (hd xs) \<Longrightarrow> dropWhile P xs = xs"
  by (cases xs) auto

lemma strip_fixed:
  assumes "s \<noteq> []" "\<not> is_space (hd s)" "\<not> is_space (last s)"
  shows "strip s = s"
proof -
  have a: "dropWhile is_space s = s" using assms by (simp add: dropWhile_keep)
  have "rev s \<noteq> []" "\<not> is_space (hd (rev s))" using assms by (simp_all add: hd_rev)
  then have "dropWhile is_space (rev s) = rev s" by (rule dropWhile_keep)
  then show ?thesis by (simp add: strip_def a)
qed

lemma strip_ends:
  assumes "strip s \<noteq> []"
  shows "\<not> is_space (hd (strip s)) \<and> \<not> is_space (last (strip s))"
proof -
  define t where "t = dropWhile is_space s"
  define u where "u = dropWhile is_space (rev t)"
  have su: "strip s = rev u" by (simp add: strip_def t_def u_def)
  then have une: "u \<noteq> []" using assms by simp
  then have hu: "\<not> is_space (hd u)" unfolding u_def by (metis hd_dropWhile)
  have tne: "t \<noteq> []" using une u_def by auto
  then have ht: "\<not> is_space (hd t)" unfolding t_def by (metis hd_dropWhile)
  obtain pre where pre: "rev t = pre @ u" unfolding u_def by (metis takeWhile_dropWhile_id)
  have "last u = last (rev t)" using pre une by simp
  also have "\<dots> = hd t" using tne by (simp add: last_rev)
  finally have "last u = hd t" .
  then show ?thesis using su une hu ht by (simp add: hd_rev last_rev)
qed

lemma show_nat_small: "n < 10 \<Longrightarrow> show_nat n = [digit_char n]"
  by (simp add: show_nat.simps)

lemma show_nat_large:
  "\<not> n < 10 \<Longrightarrow> show_nat n = show_nat (n div 10) @ [digit_char (n mod 10)]"
  by (subst show_nat.simps) simp

lemma digit_char_eval:
  "digit_char 0 = CHR ''0''" "digit_char 1 = CHR ''1''" "digit_char (Suc 0) = CHR ''1''"
  "digit_char 2 = CHR ''2''" "digit_char 3 = CHR ''3''" "digit_char 4 = CHR ''4''"
  "digit_char 5 = CHR ''5''" "digit_char 6 = CHR ''6''" "digit_char 7 = CHR ''7''"
  "digit_char 8 = CHR ''8''" "digit_char 9 = CHR ''9''"
  by code_simp+

section \<open>Facts about hotkey chords\<close>

lemma lower_idem: "lower (lower s) = lower s"
  by (simp add: lower_def lower_char_idem)

lemma starts_with_lt: "starts_with s ''<'' \<longleftrightarrow> s \<noteq> [] \<and> hd s = CHR ''<''"
  by (cases s) (auto simp: starts_with_def)

lemma ends_with_gt: "ends_with s ''>'' \<longleftrightarrow> s \<noteq> [] \<and> last s = CHR ''>''"
proof (cases s rule: rev_cases)
  case Nil then show ?thesis by (simp add: ends_with_def)
next
  case (snoc ys y) then show ?thesis by (auto simp: ends_with_def)
qed

lemma plus_in_lower: "CHR ''+'' \<in> set (lower p) \<longleftrightarrow> CHR ''+'' \<in> set p"
  unfolding lower_def set_map image_iff by (metis lower_char_plus)

lemma clean_lower: "clean_part p \<Longrightarrow> clean_part (lower p)"
  unfolding clean_part_def plus_in_lower
  by (simp add: lower_def hd_map last_map is_space_lower_char)

lemma token_map_values:
  "map_of token_map raw = Some v \<Longrightarrow> v \<in> {''<ctrl>'', ''<alt>'', ''<shift>'', ''<cmd>''}"
  by (auto simp: token_map_def split: if_splits)

lemma clean_canonical:
  "v \<in> {''<ctrl>'', ''<alt>'', ''<shift>'', ''<cmd>''} \<Longrightarrow> clean_part v \<and> normalize_part v = v"
  by (auto simp: clean_part_def is_space_def normalize_part_def lower_def lower_char_def
      starts_with_def ends_with_def)

lemma normalize_part_clean:
  assumes "clean_part p"
  shows "clean_part (normalize_part p) \<and> normalize_part (normalize_part p) = normalize_part p"
proof -
  let ?raw = "lower p"
  have c: "clean_part ?raw" using assms by (rule clean_lower)
  show ?thesis
  proof (cases "starts_with ?raw ''<'' \<and> ends_with ?raw ''>''")
    case True
    then have "normalize_part p = ?raw" by (simp add: normalize_part_def Let_def)
    moreover from True have "normalize_part ?raw = ?raw"
      by (simp add: normalize_part_def Let_def lower_idem)
    ultimately show ?thesis using c by simp
  next
    case False
    show ?thesis
    proof (cases "map_of token_map ?raw")
      case None
      with False have "normalize_part p = ?raw" by (simp add: normalize_part_def Let_def)
      moreover from None False have "normalize_part ?raw = ?raw"
        by (simp add: normalize_part_def Let_def lower_idem)
      ultimately show ?thesis using c by simp
    next
      case (Some v)
      then have "normalize_part p = v" using False by (auto simp add: normalize_part_def Let_def)
      then show ?thesis using clean_canonical [OF token_map_values [OF Some]] by simp
    qed
  qed
qed

lemma clean_strip: "clean_part p \<Longrightarrow> strip p = p"
  by (simp add: clean_part_def strip_fixed)

lemma hotkey_parts_clean: "p \<in> set (hotkey_parts h) \<Longrightarrow> clean_part p"
proof -
  assume "p \<in> set (hotkey_parts h)"
  then obtain q where q: "q \<in> set (split_on CHR ''+'' h)" "strip q \<noteq> []" "p = strip q"
    by (auto simp: hotkey_parts_def)
  have "CHR ''+'' \<notin> set q" using q(1) by (rule split_on_no_sep)
  then have "CHR ''+'' \<notin> set p" using set_strip [of q] q(3) by auto
  then show ?thesis using strip_ends [OF q(2)] q by (simp add: clean_part_def)
qed

lemma hotkey_parts_join:
  assumes "out \<noteq> []" "\<forall>p\<in>set out. clean_part p"
  shows "split_on CHR ''+'' (join ''+'' out) = out" "hotkey_parts (join ''+'' out) = out"
proof -
  show s: "split_on CHR ''+'' (join ''+'' out) = out"
    using assms split_on_join [of out "CHR ''+''"] by (simp add: clean_part_def)
  have "filter (\<lambda>part. strip part \<noteq> []) out = out"
    using assms(2) by (auto simp: clean_strip clean_part_def filter_id_conv)
  moreover have "map strip out = out"
    using assms(2) by (simp add: clean_strip map_idI)
  ultimately show "hotkey_parts (join ''+'' out) = out"
    by (simp add: hotkey_parts_def s)
qed

lemma normalize_hotkey_result:
  assumes "normalize_hotkey chord = Inr r"
  shows "hotkey_parts chord \<noteq> []"
    and "split_on CHR ''+'' r = map normalize_part (hotkey_parts chord)"
    and "normalize_hotkey r = Inr r"
proof -
  let ?out = "map normalize_part (hotkey_parts chord)"
  show ne: "hotkey_parts chord \<noteq> []"
    using assms by (auto simp: normalize_hotkey_def Let_def split: if_splits)
  have r: "r = join ''+'' ?out"
    using assms by (auto simp: normalize_hotkey_def Let_def split: if_splits)
  have cl: "\<forall>p\<in>set ?out. clean_part p"
    using hotkey_parts_clean normalize_part_clean by auto
  have one: "?out \<noteq> []" using ne by simp
  show "split_on CHR ''+'' r = ?out"
    unfolding r using one cl by (rule hotkey_parts_join(1))
  have hp: "hotkey_parts r = ?out"
    unfolding r using one cl by (rule hotkey_parts_join(2))
  have "\<forall>q\<in>set ?out. normalize_part q = q"
    using hotkey_parts_clean normalize_part_clean by auto
  then have m: "map normalize_part ?out = ?out"
    by (intro map_idI) blast
  show "normalize_hotkey r = Inr r"
    unfolding normalize_hotkey_def hp Let_def m using one r by simp
qed

section \<open>Facts about the orchestrator\<close>

lemma print_flags [simp]:
  "is_recording (print l s) = is_recording s" "is_busy (print l s) = is_busy s"
  "rec (print l s) = rec s" "files (print l s) = files s" "tasks (print l s) = tasks s"
  "typed (print l s) = typed s"
  by (simp_all add: print_def)

lemma toggle_busy: "is_busy s \<Longrightarrow> toggle_recording dev tmp s = print ''Nog bezig met de vorige transcriptie.'' s"
  by (simp add: toggle_recording_def)

lemma toggle_single_flight:
  "\<not> (is_recording s \<and> is_busy s) \<Longrightarrow>
   \<not> (is_recording (toggle_recording dev tmp s) \<and> is_busy (toggle_recording dev tmp s))"
  by (auto simp: toggle_recording_def split: prod.splits sum.splits)

lemma finish_not_busy: "\<not> is_busy (transcribe_and_type config answer typing p s)"
  by (simp add: transcribe_and_type_def Let_def)

lemma step_single_flight:
  "\<not> (is_recording s \<and> is_busy s) \<Longrightarrow>
   \<not> (is_recording (step config s ev) \<and> is_busy (step config s ev))"
proof (cases ev)
  case (Toggle dev tmp)
  assume "\<not> (is_recording s \<and> is_busy s)"
  then show ?thesis unfolding Toggle step_def by (simp add: toggle_single_flight)
next
  case (Callback indata)
  assume "\<not> (is_recording s \<and> is_busy s)"
  then show ?thesis unfolding Callback step_def by simp
next
  case (Finish p answer typing)
  assume "\<not> (is_recording s \<and> is_busy s)"
  then show ?thesis unfolding Finish step_def by (simp add: finish_not_busy)
qed

lemma foldl_single_flight:
  "\<not> (is_recording s \<and> is_busy s) \<Longrightarrow>
   \<not> (is_recording (foldl (step config) s evs) \<and> is_busy (foldl (step config) s evs))"
proof (induction evs arbitrary: s)
  case Nil then show ?case by simp
next
  case (Cons ev evs)
  from Cons.prems have "\<not> (is_recording (step config s ev) \<and> is_busy (step config s ev))"
    by (rule step_single_flight)
  then show ?case using Cons.IH by simp
qed

section \<open>Facts about the transcriber factory\<close>

lemma constructed_variant:
  "fst (WhisperTranscriber env config) = Inr t \<Longrightarrow> variant t = ''whisper''"
  "fst (AssemblyAITranscriber env config) = Inr t \<Longrightarrow> variant t = ''assemblyai''"
  "fst (GoogleTranscriber env config) = Inr t \<Longrightarrow> variant t = ''google''"
  "fst (GeminiTranscriber env config) = Inr t \<Longrightarrow> variant t = ''gemini''"
  by (auto simp: WhisperTranscriber_def AssemblyAITranscriber_def GoogleTranscriber_def
      GeminiTranscriber_def Let_def split: if_splits option.splits)

lemma provisioned_constructs:
  assumes "provisioned env"
  shows "\<exists>t. fst (WhisperTranscriber env config) = Inr t"
    and "\<exists>t. fst (AssemblyAITranscriber env config) = Inr t"
    and "\<exists>t. fst (GoogleTranscriber env config) = Inr t"
    and "\<exists>t. fst (GeminiTranscriber env config) = Inr t"
  using assms
  by (simp_all add: provisioned_def WhisperTranscriber_def AssemblyAITranscriber_def
      GoogleTranscriber_def GeminiTranscriber_def Let_def or_else_def)

section \<open>Facts about the configuration\<close>

lemma as_int_total:
  assumes "v \<noteq> Some (TFloat PosInf)" "v \<noteq> Some (TFloat NegInf)"
  shows "\<exists>i. as_int v d = Inr i"
  using assms by (auto simp: as_int_def split: option.splits toml_value.splits pyfloat.splits)

lemma as_int_fallback:
  assumes "v = None \<or> v = Some (TFloat NaN) \<or> (\<exists>t. v = Some (TOther t))
           \<or> (\<exists>s. v = Some (TStr s) \<and> int_of_str s = None)"
  shows "as_int v d = Inr d"
  using assms by (auto simp: as_int_def)

lemma as_bool_cases:
  "as_bool None d = d" "as_bool (Some (TOther t)) d = d"
  "as_bool (Some (TStr s)) d = (lower (strip s) \<in> {''1'', ''true'', ''yes'', ''y'', ''on''})"
  by (simp_all add: as_bool_def)

lemma as_str_cases:
  "as_str fr None d = d" "as_str fr (Some v) d = str fr v"
  by (simp_all add: as_str_def)

lemma config_of_data_fields:
  assumes "as_int (data ''sample_rate'') 16000 = Inr rate"
  shows "config_of_data fr data =
     Inr \<lparr>engine = lower (as_str fr (data ''engine'') ''whisper''),
          hotkey = as_str fr (data ''hotkey'') ''<ctrl>+<alt>+d'',
          language = as_str fr (data ''language'') ''nl'',
          sample_rate = rate,
          append_space = as_bool (data ''append_space'') True,
          whisper_model = as_str fr (data ''whisper_model'') ''small'',
          whisper_device = as_str fr (data ''whisper_device'') ''auto'',
          whisper_compute_type = as_str fr (data ''whisper_compute_type'') ''int8'',
          assemblyai_api_key = as_str fr (data ''assemblyai_api_key'') '''',
          google_credentials_path = as_str fr (data ''google_credentials_path'') '''',
          gemini_api_key = as_str fr (data ''gemini_api_key'') ''''\<rparr>"
  using assms by (simp add: config_of_data_def AppConfig_def)

section \<open>Facts about saving and loading\<close>

lemma crlf_id: "CHR 0x0D \<notin> set s \<Longrightarrow> crlf s = s"
  by (induction s rule: crlf.induct) auto

lemma quote_esc: "quote v = dquote # concat (map esc v) @ [dquote]"
proof -
  have "replace_char dquote [backslash, dquote] (replace_char backslash [backslash, backslash] v)
        = concat (map esc v)"
    by (induction v) (auto simp: replace_char_def esc_def dquote_def backslash_def)
  then show ?thesis by (simp add: quote_def)
qed

lemma esc_cases:
  "esc backslash = [backslash, backslash]" "esc dquote = [backslash, dquote]"
  "c \<noteq> backslash \<Longrightarrow> c \<noteq> dquote \<Longrightarrow> esc c = [c]"
  by (simp_all add: esc_def dquote_def backslash_def)

lemma parse_basic_str_steps:
  "parse_basic_str (backslash # backslash # r) =
     (case parse_basic_str r of None \<Rightarrow> None | Some (s, r') \<Rightarrow> Some (backslash # s, r'))"
  "parse_basic_str (backslash # dquote # r) =
     (case parse_basic_str r of None \<Rightarrow> None | Some (s, r') \<Rightarrow> Some (dquote # s, r'))"
  "c \<noteq> backslash \<Longrightarrow> c \<noteq> dquote \<Longrightarrow> \<not> illegal_ctrl c \<Longrightarrow>
   parse_basic_str (c # r) =
     (case parse_basic_str r of None \<Rightarrow> None | Some (s, r') \<Rightarrow> Some (c # s, r'))"
  "illegal_ctrl c \<Longrightarrow> parse_basic_str (c # r) = None"
  by (auto simp: basic_escape_def dquote_def backslash_def illegal_ctrl_def split: option.splits)

lemma parse_basic_str_esc:
  "filter illegal_ctrl v = [] \<Longrightarrow>
   parse_basic_str (concat (map esc v) @ dquote # rest) = Some (v, rest)"
proof (induction v)
  case Nil then show ?case by simp
next
  case (Cons c v)
  then have ih: "parse_basic_str (concat (map esc v) @ dquote # rest) = Some (v, rest)"
    and ok: "\<not> illegal_ctrl c" by (auto split: if_splits)
  consider "c = backslash" | "c = dquote" | "c \<noteq> backslash" "c \<noteq> dquote" by blast
  then show ?case
  proof cases
    case 1 then show ?thesis using ih by (simp add: esc_cases parse_basic_str_steps del: parse_basic_str.simps)
  next
    case 2 then show ?thesis using ih by (simp add: esc_cases parse_basic_str_steps del: parse_basic_str.simps)
  next
    case 3 then show ?thesis using ih ok by (simp add: esc_cases parse_basic_str_steps del: parse_basic_str.simps)
  qed
qed

lemma parse_basic_str_illegal:
  "filter illegal_ctrl v \<noteq> [] \<Longrightarrow> parse_basic_str (concat (map esc v) @ rest) = None"
proof (induction v)
  case Nil then show ?case by simp
next
  case (Cons c v)
  show ?case
  proof (cases "illegal_ctrl c")
    case True
    then have "c \<noteq> backslash" "c \<noteq> dquote"
      by (auto simp: illegal_ctrl_def backslash_def dquote_def)
    then show ?thesis using True by (simp add: esc_cases parse_basic_str_steps del: parse_basic_str.simps)
  next
    case False
    then have ih: "parse_basic_str (concat (map esc v) @ rest) = None" using Cons by simp
    consider "c = backslash" | "c = dquote" | "c \<noteq> backslash" "c \<noteq> dquote" by blast
    then show ?thesis
    proof cases
      case 1 then show ?thesis using ih by (simp add: esc_cases parse_basic_str_steps del: parse_basic_str.simps)
    next
      case 2 then show ?thesis using ih by (simp add: esc_cases parse_basic_str_steps del: parse_basic_str.simps)
    next
      case 3 then show ?thesis using ih False by (simp add: esc_cases parse_basic_str_steps del: parse_basic_str.simps)
    qed
  qed
qed

lemma parse_value_quote:
  "filter illegal_ctrl v = [] \<Longrightarrow> parse_value (quote v) = Some (TStr v, [])"
proof -
  assume ok: "filter illegal_ctrl v = []"
  have ns: "\<not> starts_with (quote v) [dquote, dquote, dquote]"
    by (cases v) (auto simp: quote_esc starts_with_def esc_def dquote_def backslash_def)
  show ?thesis using ns parse_basic_str_esc [OF ok, of "[]"]
    by (simp add: parse_value_def) (simp add: quote_esc)
qed

lemma parse_value_quote_illegal:
  "filter illegal_ctrl v \<noteq> [] \<Longrightarrow> parse_value (quote v) = None"
  using parse_basic_str_illegal [of v "[dquote]"]
  by (simp add: parse_value_def) (simp add: quote_esc)

lemma of_char_digit_char: "d < 10 \<Longrightarrow> (of_char (digit_char d) :: nat) = 48 + d"
  by (simp add: digit_char_def)

lemma digit_char_props:
  assumes "d < 10"
  shows "is_digit (digit_char d)" "digit_value (digit_char d) = int d"
    "digit_char d = CHR ''0'' \<longleftrightarrow> d = 0"
    "digit_char d \<noteq> CHR ''+''" "digit_char d \<noteq> CHR ''-''" "digit_char d \<noteq> dquote"
    "digit_char d \<noteq> CHR ''t''" "digit_char d \<noteq> CHR ''f''" "digit_char d \<noteq> CHR ''_''"
  using assms
  unfolding of_char_eq_iff [where 'a = nat, symmetric] is_digit_def digit_value_def dquote_def
  by (simp_all add: of_char_digit_char)

lemma show_nat_digits: "c \<in> set (show_nat n) \<Longrightarrow> \<exists>d<10. c = digit_char d"
proof (induction n arbitrary: c rule: show_nat.induct)
  case (1 n)
  show ?case
  proof (cases "n < 10")
    case True
    then show ?thesis using "1.prems" by (auto simp: show_nat_small)
  next
    case False
    then have "c \<in> set (show_nat (n div 10)) \<or> c = digit_char (n mod 10)"
      using "1.prems" by (auto simp: show_nat_large)
    then show ?thesis
    proof
      assume "c \<in> set (show_nat (n div 10))"
      then show ?thesis using "1.IH" [OF False] by blast
    next
      assume "c = digit_char (n mod 10)"
      moreover have "n mod 10 < 10" by simp
      ultimately show ?thesis by blast
    qed
  qed
qed

lemma show_nat_value: "digits_val 0 (show_nat n) = int n"
proof (induction n rule: show_nat.induct)
  case (1 n)
  show ?case
  proof (cases "n < 10")
    case True
    then show ?thesis by (simp add: show_nat_small digits_val_def digit_char_props)
  next
    case False
    have "digits_val 0 (show_nat n) = 10 * digits_val 0 (show_nat (n div 10)) + int (n mod 10)"
      using False by (simp add: show_nat_large digits_val_def digit_char_props)
    also have "\<dots> = 10 * int (n div 10) + int (n mod 10)" using "1.IH" [OF False] by simp
    also have "\<dots> = int n"
    proof -
      have "10 * (n div 10) + n mod 10 = n" by simp
      then have "int (10 * (n div 10) + n mod 10) = int n" by (rule arg_cong)
      then show ?thesis by (simp only: of_nat_add of_nat_mult of_nat_numeral)
    qed
    finally show ?thesis .
  qed
qed

lemma show_nat_nonempty: "show_nat n \<noteq> []"
  by (cases "n < 10") (simp_all add: show_nat_small show_nat_large)

lemma show_nat_hd: "0 < n \<Longrightarrow> hd (show_nat n) \<noteq> CHR ''0''"
proof (induction n rule: show_nat.induct)
  case (1 n)
  show ?case
  proof (cases "n < 10")
    case True
    then show ?thesis using "1.prems" by (simp add: show_nat_small digit_char_props)
  next
    case False
    then have "0 < n div 10" by simp
    then have "hd (show_nat (n div 10)) \<noteq> CHR ''0''" using "1.IH" [OF False] by simp
    then show ?thesis using False show_nat_nonempty [of "n div 10"]
      by (simp add: show_nat_large)
  qed
qed

lemma more_digits_all:
  "(\<And>c. c \<in> set ds \<Longrightarrow> is_digit c) \<Longrightarrow> more_digits acc ds = (digits_val acc ds, [])"
  by (induction ds arbitrary: acc) (simp_all add: digits_val_def)

lemma unsigned_dec_show_nat: "unsigned_dec (show_nat n) = Some (int n, [])"
proof (cases "n = 0")
  case True
  then show ?thesis by (simp add: show_nat_small unsigned_dec_def digit_char_eval)
next
  case False
  obtain c cs where s: "show_nat n = c # cs"
    using show_nat_nonempty [of n] by (cases "show_nat n") auto
  have nz: "c \<noteq> CHR ''0''" using show_nat_hd [of n] False s by simp
  have dig: "\<And>x. x \<in> set (c # cs) \<Longrightarrow> is_digit x"
    using show_nat_digits [of _ n] s digit_char_props(1) by metis
  have "more_digits (digit_value c) cs = (digits_val (digit_value c) cs, [])"
    using dig by (intro more_digits_all) simp
  moreover have "digits_val (digit_value c) cs = digits_val 0 (c # cs)"
    by (simp add: digits_val_def)
  ultimately have "more_digits (digit_value c) cs = (int n, [])"
    using show_nat_value [of n] s by simp
  then show ?thesis using nz dig s by (simp add: unsigned_dec_def)
qed

lemma show_nat_first:
  "\<exists>d cs. d < 10 \<and> show_nat n = digit_char d # cs"
  using show_nat_nonempty [of n] show_nat_digits [of "hd (show_nat n)" n]
  by (cases "show_nat n") auto

lemma parse_dec_show_int: "parse_dec (show_int i) = Some (i, [])"
proof (cases "i < 0")
  case True
  then show ?thesis
    by (simp add: show_int_def parse_dec_def unsigned_dec_show_nat)
next
  case False
  obtain d cs where d: "d < 10" "show_nat (nat i) = digit_char d # cs"
    using show_nat_first by blast
  have "parse_dec (show_nat (nat i)) = unsigned_dec (show_nat (nat i))"
    unfolding d(2) parse_dec_def using digit_char_props [OF d(1)] by simp
  then show ?thesis using False by (simp add: show_int_def unsigned_dec_show_nat)
qed

lemma parse_value_show_int: "parse_value (show_int i) = Some (TInt i, [])"
proof -
  obtain c cs where c: "show_int i = c # cs" "c \<noteq> dquote" "c \<noteq> CHR ''t''" "c \<noteq> CHR ''f''"
  proof (cases "i < 0")
    case True
    then show ?thesis using that [of "CHR ''-''"] by (simp add: show_int_def dquote_def)
  next
    case False
    obtain d ds where d: "d < 10" "show_nat (nat i) = digit_char d # ds"
      using show_nat_first by blast
    then show ?thesis using False that digit_char_props [OF d(1)] by (simp add: show_int_def)
  qed
  have "parse_value (c # cs) = (case parse_dec (c # cs) of None \<Rightarrow> None
                                | Some (n, r) \<Rightarrow> Some (TInt n, r))"
    using c(2-4) by (simp add: parse_value_def starts_with_def)
  then show ?thesis using parse_dec_show_int [of i] c(1) by simp
qed

lemma bare_key_char_not:
  "bare_key_char c \<Longrightarrow> \<not> is_ws c \<and> c \<noteq> CHR ''#''"
  "\<not> bare_key_char (CHR '' '')"
  unfolding of_char_eq_iff [where 'a = nat, symmetric] bare_key_char_def is_ws_def tab_def Let_def
  by auto

lemma parse_line_kv:
  assumes "key \<noteq> []" "\<forall>c\<in>set key. bare_key_char c" "val \<noteq> []" "\<not> is_ws (hd val)"
  shows "parse_line (key @ '' = '' @ val) =
           (case parse_value val of
              None \<Rightarrow> None
            | Some (v, r) \<Rightarrow> if end_of_statement r then Some (Some (key, v)) else None)"
proof -
  obtain k ks where k: "key = k # ks" using assms(1) by (cases key) auto
  have kb: "bare_key_char k" "\<not> is_ws k" "k \<noteq> CHR ''#''"
    using assms(2) k bare_key_char_not(1) [of k] by auto
  let ?l = "key @ '' = '' @ val"
  have d1: "dropWhile is_ws ?l = ?l" using kb k by simp
  have tw: "takeWhile bare_key_char ?l = key"
    using assms(2) bare_key_char_not(2) by (simp add: takeWhile_tail)
  have dw: "dropWhile bare_key_char ?l = '' = '' @ val"
    using assms(2) bare_key_char_not(2) by (simp add: dropWhile_append3)
  have d2: "dropWhile is_ws ('' = '' @ val) = CHR ''='' # CHR '' '' # val"
    by (simp add: is_ws_def tab_def)
  have d3: "dropWhile is_ws (CHR '' '' # val) = val"
    using assms(3,4) by (cases val) (simp_all add: is_ws_def)
  have "parse_line ?l =
          (case parse_value (dropWhile is_ws (CHR '' '' # val)) of
              None \<Rightarrow> None
            | Some (v, r) \<Rightarrow> if end_of_statement r then Some (Some (key, v)) else None)"
    unfolding parse_line_def d1 Let_def tw dw d2 unfolding k using kb by simp
  then show ?thesis unfolding d3 .
qed

lemma quote_head: "quote v \<noteq> []" "\<not> is_ws (hd (quote v))"
  by (simp_all add: quote_esc is_ws_def dquote_def tab_def)

lemma show_int_head: "show_int i \<noteq> []" "\<not> is_ws (hd (show_int i))"
proof -
  obtain d ds where d: "d < 10" "show_nat (nat i) = digit_char d # ds"
    using show_nat_first by blast
  have "\<not> is_ws (digit_char d)"
    using d(1) unfolding is_ws_def tab_def of_char_eq_iff [where 'a = nat, symmetric]
    by (simp add: of_char_digit_char)
  then show "show_int i \<noteq> []" "\<not> is_ws (hd (show_int i))"
    using d(2) show_nat_first [of "nat (- i)"]
    by (auto simp: show_int_def is_ws_def tab_def)
qed

lemma end_nil: "end_of_statement []"
  by (simp add: end_of_statement_def)

lemma parse_line_text:
  assumes "key \<noteq> []" "\<forall>c\<in>set key. bare_key_char c" "filter illegal_ctrl v = []"
  shows "parse_line (key @ '' = '' @ quote v) = Some (Some (key, TStr v))"
  using parse_line_kv [OF assms(1,2) quote_head] parse_value_quote [OF assms(3)]
  by (simp add: end_nil)

lemma parse_line_text_illegal:
  assumes "key \<noteq> []" "\<forall>c\<in>set key. bare_key_char c" "filter illegal_ctrl v \<noteq> []"
  shows "parse_line (key @ '' = '' @ quote v) = None"
  using parse_line_kv [OF assms(1,2) quote_head] parse_value_quote_illegal [OF assms(3)]
  by simp

lemma parse_line_int:
  assumes "key \<noteq> []" "\<forall>c\<in>set key. bare_key_char c"
  shows "parse_line (key @ '' = '' @ show_int i) = Some (Some (key, TInt i))"
  using parse_line_kv [OF assms show_int_head] parse_value_show_int [of i]
  by (simp add: end_nil)

lemma parse_line_bool:
  assumes "key \<noteq> []" "\<forall>c\<in>set key. bare_key_char c"
  shows "parse_line (key @ '' = '' @ (if b then ''true'' else ''false'')) = Some (Some (key, TBool b))"
proof -
  have v: "parse_value (if b then ''true'' else ''false'') = Some (TBool b, [])"
    by (simp add: parse_value_def starts_with_def dquote_def)
  have h: "(if b then ''true'' else ''false'') \<noteq> []" "\<not> is_ws (hd (if b then ''true'' else ''false''))"
    by (simp_all add: is_ws_def tab_def)
  show ?thesis using parse_line_kv [OF assms h] v by (simp add: end_nil)
qed

lemma parse_line_blank: "parse_line [] = Some None"
  by (simp add: parse_line_def)

lemma legal_quote: "filter illegal_ctrl v = [] \<Longrightarrow> filter illegal_ctrl (quote v) = []"
proof -
  assume v: "filter illegal_ctrl v = []"
  have q: "\<not> illegal_ctrl dquote" "\<not> illegal_ctrl backslash"
    by (simp_all add: illegal_ctrl_def dquote_def backslash_def tab_def)
  have "filter illegal_ctrl (concat (map esc v)) = []"
    using v by (induction v) (auto simp: esc_def q split: if_splits)
  then show ?thesis by (simp add: quote_esc q)
qed

lemma legal_show_int: "filter illegal_ctrl (show_int i) = []"
proof -
  have d: "\<And>d. d < 10 \<Longrightarrow> \<not> illegal_ctrl (digit_char d)"
    unfolding illegal_ctrl_def tab_def of_char_eq_iff [where 'a = nat, symmetric]
    by (simp add: of_char_digit_char)
  have "\<And>n. filter illegal_ctrl (show_nat n) = []"
    using show_nat_digits d by (fastforce simp: filter_empty_conv)
  then show ?thesis by (simp add: show_int_def illegal_ctrl_def tab_def)
qed

lemma legal_no_breaks:
  "filter illegal_ctrl l = [] \<Longrightarrow> newline \<notin> set l \<and> CHR 0x0D \<notin> set l"
proof -
  have "illegal_ctrl newline" "illegal_ctrl (CHR 0x0D)"
    by (simp_all add: illegal_ctrl_def newline_def tab_def)
  then show "filter illegal_ctrl l = [] \<Longrightarrow> newline \<notin> set l \<and> CHR 0x0D \<notin> set l"
    by (auto simp: filter_empty_conv)
qed

lemma set_join: "set (join sep ls) \<subseteq> set sep \<union> \<Union> (set ` set ls)"
  by (induction sep ls rule: join.induct) auto

lemma legal_lines:
  assumes "storable config" "l \<in> set (config_lines config)"
  shows "filter illegal_ctrl l = []"
proof -
  have f: "filter illegal_ctrl (engine config) = []" "filter illegal_ctrl (hotkey config) = []"
    "filter illegal_ctrl (language config) = []" "filter illegal_ctrl (whisper_model config) = []"
    "filter illegal_ctrl (whisper_device config) = []"
    "filter illegal_ctrl (whisper_compute_type config) = []"
    "filter illegal_ctrl (assemblyai_api_key config) = []"
    "filter illegal_ctrl (google_credentials_path config) = []"
    "filter illegal_ctrl (gemini_api_key config) = []"
    using assms(1) by (simp_all add: storable_def)
  have lit: "\<And>s. filter illegal_ctrl (''engine = '' @ s) = filter illegal_ctrl s"
    "\<And>s. filter illegal_ctrl (''hotkey = '' @ s) = filter illegal_ctrl s"
    "\<And>s. filter illegal_ctrl (''language = '' @ s) = filter illegal_ctrl s"
    "\<And>s. filter illegal_ctrl (''sample_rate = '' @ s) = filter illegal_ctrl s"
    "\<And>s. filter illegal_ctrl (''append_space = '' @ s) = filter illegal_ctrl s"
    "\<And>s. filter illegal_ctrl (''whisper_model = '' @ s) = filter illegal_ctrl s"
    "\<And>s. filter illegal_ctrl (''whisper_device = '' @ s) = filter illegal_ctrl s"
    "\<And>s. filter illegal_ctrl (''whisper_compute_type = '' @ s) = filter illegal_ctrl s"
    "\<And>s. filter illegal_ctrl (''assemblyai_api_key = '' @ s) = filter illegal_ctrl s"
    "\<And>s. filter illegal_ctrl (''google_credentials_path = '' @ s) = filter illegal_ctrl s"
    "\<And>s. filter illegal_ctrl (''gemini_api_key = '' @ s) = filter illegal_ctrl s"
    by (simp_all add: illegal_ctrl_def tab_def)
  have b: "filter illegal_ctrl (if append_space config then ''true'' else ''false'') = []"
    by (simp add: illegal_ctrl_def tab_def)
  from assms(2) show ?thesis
    unfolding config_lines_def set_simps insert_iff empty_iff
    by (elim disjE) (simp_all only: lit f legal_quote legal_show_int b filter.simps)
qed

lemma storable_fields:
  assumes "storable config"
  shows "filter illegal_ctrl (engine config) = []" "filter illegal_ctrl (hotkey config) = []"
    "filter illegal_ctrl (language config) = []" "filter illegal_ctrl (whisper_model config) = []"
    "filter illegal_ctrl (whisper_device config) = []"
    "filter illegal_ctrl (whisper_compute_type config) = []"
    "filter illegal_ctrl (assemblyai_api_key config) = []"
    "filter illegal_ctrl (google_credentials_path config) = []"
    "filter illegal_ctrl (gemini_api_key config) = []"
  using assms by (simp_all add: storable_def)

lemma saved_lines_parse:
  assumes "storable config"
  shows "parse_line (''engine = '' @ quote (engine config))
           = Some (Some (''engine'', TStr (engine config)))"
    "parse_line (''hotkey = '' @ quote (hotkey config))
           = Some (Some (''hotkey'', TStr (hotkey config)))"
    "parse_line (''language = '' @ quote (language config))
           = Some (Some (''language'', TStr (language config)))"
    "parse_line (''sample_rate = '' @ show_int (sample_rate config))
           = Some (Some (''sample_rate'', TInt (sample_rate config)))"
    "parse_line (''append_space = '' @ (if append_space config then ''true'' else ''false''))
           = Some (Some (''append_space'', TBool (append_space config)))"
    "parse_line (''whisper_model = '' @ quote (whisper_model config))
           = Some (Some (''whisper_model'', TStr (whisper_model config)))"
    "parse_line (''whisper_device = '' @ quote (whisper_device config))
           = Some (Some (''whisper_device'', TStr (whisper_device config)))"
    "parse_line (''whisper_compute_type = '' @ quote (whisper_compute_type config))
           = Some (Some (''whisper_compute_type'', TStr (whisper_compute_type config)))"
    "parse_line (''assemblyai_api_key = '' @ quote (assemblyai_api_key config))
           = Some (Some (''assemblyai_api_key'', TStr (assemblyai_api_key config)))"
    "parse_line (''google_credentials_path = '' @ quote (google_credentials_path config))
           = Some (Some (''google_credentials_path'', TStr (google_credentials_path config)))"
    "parse_line (''gemini_api_key = '' @ quote (gemini_api_key config))
           = Some (Some (''gemini_api_key'', TStr (gemini_api_key config)))"
proof -
  note f = storable_fields [OF assms]
  show "parse_line (''engine = '' @ quote (engine config))
           = Some (Some (''engine'', TStr (engine config)))"
    using parse_line_text [of "''engine''" "engine config"] f
    by (simp add: bare_key_char_def)
  show "parse_line (''hotkey = '' @ quote (hotkey config))
           = Some (Some (''hotkey'', TStr (hotkey config)))"
    using parse_line_text [of "''hotkey''" "hotkey config"] f
    by (simp add: bare_key_char_def)
  show "parse_line (''language = '' @ quote (language config))
           = Some (Some (''language'', TStr (language config)))"
    using parse_line_text [of "''language''" "language config"] f
    by (simp add: bare_key_char_def)
  show "parse_line (''sample_rate = '' @ show_int (sample_rate config))
           = Some (Some (''sample_rate'', TInt (sample_rate config)))"
    using parse_line_int [of "''sample_rate''" "sample_rate config"]
    by (simp add: bare_key_char_def)
  show "parse_line (''append_space = '' @ (if append_space config then ''true'' else ''false''))
           = Some (Some (''append_space'', TBool (append_space config)))"
    using parse_line_bool [of "''append_space''" "append_space config"]
    by (simp add: bare_key_char_def)
  show "parse_line (''whisper_model = '' @ quote (whisper_model config))
           = Some (Some (''whisper_model'', TStr (whisper_model config)))"
    using parse_line_text [of "''whisper_model''" "whisper_model config"] f
    by (simp add: bare_key_char_def)
  show "parse_line (''whisper_device = '' @ quote (whisper_device config))
           = Some (Some (''whisper_device'', TStr (whisper_device config)))"
    using parse_line_text [of "''whisper_device''" "whisper_device config"] f
    by (simp add: bare_key_char_def)
  show "parse_line (''whisper_compute_type = '' @ quote (whisper_compute_type config))
           = Some (Some (''whisper_compute_type'', TStr (whisper_compute_type config)))"
    using parse_line_text [of "''whisper_compute_type''" "whisper_compute_type config"] f
    by (simp add: bare_key_char_def)
  show "parse_line (''assemblyai_api_key = '' @ quote (assemblyai_api_key config))
           = Some (Some (''assemblyai_api_key'', TStr (assemblyai_api_key config)))"
    using parse_line_text [of "''assemblyai_api_key''" "assemblyai_api_key config"] f
    by (simp add: bare_key_char_def)
  show "parse_line (''google_credentials_path = '' @ quote (google_credentials_path config))
           = Some (Some (''google_credentials_path'', TStr (google_credentials_path config)))"
    using parse_line_text [of "''google_credentials_path''" "google_credentials_path config"] f
    by (simp add: bare_key_char_def)
  show "parse_line (''gemini_api_key = '' @ quote (gemini_api_key config))
           = Some (Some (''gemini_api_key'', TStr (gemini_api_key config)))"
    using parse_line_text [of "''gemini_api_key''" "gemini_api_key config"] f
    by (simp add: bare_key_char_def)
qed

lemma saved_lines_load:
  assumes "storable config"
  shows "load_lines (config_lines config) Map.empty =
     Inr [''engine'' \<mapsto> TStr (engine config),
          ''hotkey'' \<mapsto> TStr (hotkey config),
          ''language'' \<mapsto> TStr (language config),
          ''sample_rate'' \<mapsto> TInt (sample_rate config),
          ''append_space'' \<mapsto> TBool (append_space config),
          ''whisper_model'' \<mapsto> TStr (whisper_model config),
          ''whisper_device'' \<mapsto> TStr (whisper_device config),
          ''whisper_compute_type'' \<mapsto> TStr (whisper_compute_type config),
          ''assemblyai_api_key'' \<mapsto> TStr (assemblyai_api_key config),
          ''google_credentials_path'' \<mapsto> TStr (google_credentials_path config),
          ''gemini_api_key'' \<mapsto> TStr (gemini_api_key config)]"
  unfolding config_lines_def load_lines.simps saved_lines_parse [OF assms] parse_line_blank
  by simp

lemma toml_loads_saved:
  assumes "storable config"
  shows "toml_loads (join [newline] (config_lines config)) =
           load_lines (config_lines config) Map.empty"
proof -
  have nb: "\<forall>l\<in>set (config_lines config). newline \<notin> set l"
    and nr: "\<forall>l\<in>set (config_lines config). CHR 0x0D \<notin> set l"
    using legal_lines [OF assms] legal_no_breaks by blast+
  have "CHR 0x0D \<notin> set (join [newline] (config_lines config))"
    using set_join [of "[newline]" "config_lines config"] nr by (auto simp: newline_def)
  then have c: "crlf (join [newline] (config_lines config)) = join [newline] (config_lines config)"
    by (rule crlf_id)
  have ne: "config_lines config \<noteq> []" by (simp add: config_lines_def)
  show ?thesis
    unfolding toml_loads_def c split_on_join [OF ne nb] ..
qed

lemma config_of_saved:
  "config_of_data float_repr
     [''engine'' \<mapsto> TStr (engine config),
      ''hotkey'' \<mapsto> TStr (hotkey config),
      ''language'' \<mapsto> TStr (language config),
      ''sample_rate'' \<mapsto> TInt (sample_rate config),
      ''append_space'' \<mapsto> TBool (append_space config),
      ''whisper_model'' \<mapsto> TStr (whisper_model config),
      ''whisper_device'' \<mapsto> TStr (whisper_device config),
      ''whisper_compute_type'' \<mapsto> TStr (whisper_compute_type config),
      ''assemblyai_api_key'' \<mapsto> TStr (assemblyai_api_key config),
      ''google_credentials_path'' \<mapsto> TStr (google_credentials_path config),
      ''gemini_api_key'' \<mapsto> TStr (gemini_api_key config)]
   = Inr (config\<lparr>engine := lower (engine config)\<rparr>)"
  by (simp add: config_of_data_def as_int_def as_bool_def as_str_def)

text \<open>
  Saving and loading gives the configuration back whenever none of its texts holds a
  control character other than the tab, and its engine is in lower case, as the four
  recognized names are.
\<close>

lemma save_load_storable:
  assumes "storable config" "lower (engine config) = engine config"
  shows "load_config float_repr toml_loads (save_config config fs config_path) config_path
           = Inr config"
proof -
  have "load_config float_repr toml_loads (save_config config fs config_path) config_path
          = Inr (config\<lparr>engine := lower (engine config)\<rparr>)"
    unfolding load_config_def save_config_def
    by (simp add: toml_loads_saved [OF assms(1)] saved_lines_load [OF assms(1)] config_of_saved)
  then show ?thesis using assms(2) by simp
qed

section \<open>The orchestrator: the claims\<close>

text \<open>
  C1. Take an app that is idle (not recording, not busy) and let the recorder's
  \<open>start\<close> and \<open>stop\<close> succeed.  The first toggle sets the recording flag and leaves
  the busy flag clear.  After the driver has delivered its chunks, the second toggle
  clears the recording flag, sets the busy flag and hands the artifact, now in storage,
  to a new background thread.  A third toggle, made while the app is still busy, only
  prints the busy notice: nothing else of the state changes.
\<close>

theorem toggle_three_calls:
  assumes idle: "\<not> is_recording s \<and> \<not> is_busy s"
    and start_ok: "fst (start dev1 (rec s)) = Inr ()"
    and s1: "s1 = toggle_recording dev1 tmp1 s"
    and heard: "s1' = s1\<lparr>rec := foldl (\<lambda>r indata. callback indata r) (rec s1) chunks\<rparr>"
    and stop_ok: "fst (stop tmp2 (rec s1') (files s1')) = Inr audio_path"
    and s2: "s2 = toggle_recording dev2 tmp2 s1'"
    and s3: "s3 = toggle_recording dev3 tmp3 s2"
  shows "is_recording s1 \<and> \<not> is_busy s1
    \<and> \<not> is_recording s2 \<and> is_busy s2 \<and> tasks s2 = tasks s @ [audio_path]
    \<and> files s2 audio_path \<noteq> None
    \<and> s3 = print ''Nog bezig met de vorige transcriptie.'' s2
    \<and> is_recording s3 = is_recording s2 \<and> is_busy s3 = is_busy s2"
proof -
  obtain r1 where r1: "start dev1 (rec s) = (Inr (), r1)"
    using start_ok by (cases "start dev1 (rec s)") auto
  have e1: "s1 = print ''Opname gestart...'' (s\<lparr>rec := r1, is_recording := True\<rparr>)"
    using idle r1 by (simp add: s1 toggle_recording_def)
  have f1: "is_recording s1' \<and> \<not> is_busy s1' \<and> tasks s1' = tasks s"
    using idle by (simp add: heard e1)
  obtain r2 fs2 where r2: "stop tmp2 (rec s1') (files s1') = (Inr audio_path, r2, fs2)"
    using stop_ok by (cases "stop tmp2 (rec s1') (files s1')") auto
  have e2: "s2 = (print ''Transcriberen...''
               (s1'\<lparr>rec := r2, files := fs2, is_recording := False, is_busy := True\<rparr>))
             \<lparr>tasks := tasks s1' @ [audio_path]\<rparr>"
    using f1 r2 by (simp add: s2 toggle_recording_def)
  have written: "fs2 audio_path \<noteq> None"
    using r2 by (auto simp: stop_def recording_to_wav_def Let_def split: option.splits if_splits)
  have b2: "is_busy s2" by (simp add: e2)
  have e3: "s3 = print ''Nog bezig met de vorige transcriptie.'' s2"
    unfolding s3 using b2 by (rule toggle_busy)
  show ?thesis using idle f1 written by (simp add: e1 e2 e3)
qed

theorem toggle_three_calls_witness:
  "is_recording (toggle_recording DeviceOk ''a.wav'' (VoiceTyperApp AppConfig))
   \<and> is_busy (toggle_recording DeviceOk ''b.wav''
       ((toggle_recording DeviceOk ''a.wav'' (VoiceTyperApp AppConfig))
          \<lparr>rec := foldl (\<lambda>r indata. callback indata r)
              (rec (toggle_recording DeviceOk ''a.wav'' (VoiceTyperApp AppConfig))) [[1 / 2]]\<rparr>))
   \<and> tasks (toggle_recording DeviceOk ''b.wav''
       ((toggle_recording DeviceOk ''a.wav'' (VoiceTyperApp AppConfig))
          \<lparr>rec := foldl (\<lambda>r indata. callback indata r)
              (rec (toggle_recording DeviceOk ''a.wav'' (VoiceTyperApp AppConfig))) [[1 / 2]]\<rparr>))
       = [''b.wav'']"
proof -
  let ?s = "VoiceTyperApp AppConfig"
  let ?s1 = "toggle_recording DeviceOk ''a.wav'' ?s"
  let ?s1' = "?s1\<lparr>rec := foldl (\<lambda>r indata. callback indata r) (rec ?s1) [[1 / 2]]\<rparr>"
  have idle: "\<not> is_recording ?s \<and> \<not> is_busy ?s" by (simp add: VoiceTyperApp_def)
  have start_ok: "fst (start DeviceOk (rec ?s)) = Inr ()"
    by (simp add: VoiceTyperApp_def AudioRecorder_def start_def)
  have stop_ok: "fst (stop ''b.wav'' (rec ?s1') (files ?s1')) = Inr ''b.wav''"
    by (simp add: VoiceTyperApp_def AudioRecorder_def start_def stop_def toggle_recording_def
        callback_def print_def recording_to_wav_def Let_def)
  have t: "tasks ?s = []" by (simp add: VoiceTyperApp_def)
  from toggle_three_calls [where ?dev2.0 = DeviceOk and ?dev3.0 = DeviceOk and ?tmp3.0 = "''c.wav''",
      OF idle start_ok refl refl stop_ok refl refl]
  show ?thesis using t by simp
qed

text \<open>
  C2. However the background thread goes, whether the transcriber answers with text,
  with blank text or with an exception, and whether or not the keystrokes can be sent,
  at its end the artifact is gone from storage and the busy flag is clear.
\<close>

theorem transcribe_and_type_cleans_up:
  "files (transcribe_and_type config answer typing audio_path s) audio_path = None
   \<and> \<not> is_busy (transcribe_and_type config answer typing audio_path s)"
  by (simp add: transcribe_and_type_def Let_def)

theorem transcribe_and_type_cleans_up_witness:
  "files (transcribe_and_type AppConfig (Inl (RuntimeError ''AssemblyAI transcriptie mislukt.''))
            None ''a.wav''
            ((VoiceTyperApp AppConfig)
               \<lparr>is_busy := True,
                files := [''a.wav'' \<mapsto> \<lparr>nchannels = 1, sampwidth = 2, framerate = 16000,
                                     wav_frames = [16383]\<rparr>]\<rparr>)) ''a.wav'' = None
   \<and> \<not> is_busy (transcribe_and_type AppConfig
            (Inl (RuntimeError ''AssemblyAI transcriptie mislukt.'')) None ''a.wav''
            ((VoiceTyperApp AppConfig)
               \<lparr>is_busy := True,
                files := [''a.wav'' \<mapsto> \<lparr>nchannels = 1, sampwidth = 2, framerate = 16000,
                                     wav_frames = [16383]\<rparr>]\<rparr>))"
  by (rule transcribe_and_type_cleans_up)

text \<open>
  C3. After any sequence of toggles, driver callbacks and background threads running to
  their end, starting from a fresh app, the recording flag and the busy flag are not
  both set; and a toggle made while the busy flag is set leaves both flags as they
  are.
\<close>

theorem single_flight:
  "\<not> (is_recording (run config evs) \<and> is_busy (run config evs))
   \<and> (is_busy (run config evs) \<longrightarrow>
        is_recording (toggle_recording dev tmp (run config evs)) = is_recording (run config evs)
      \<and> is_busy (toggle_recording dev tmp (run config evs)) = is_busy (run config evs))"
proof -
  have "\<not> (is_recording (VoiceTyperApp config) \<and> is_busy (VoiceTyperApp config))"
    by (simp add: VoiceTyperApp_def)
  then have "\<not> (is_recording (run config evs) \<and> is_busy (run config evs))"
    unfolding run_def by (rule foldl_single_flight)
  then show ?thesis by (simp add: toggle_busy)
qed

theorem single_flight_witness:
  "is_busy (run AppConfig [Toggle DeviceOk ''a.wav'', Callback [1 / 2], Toggle DeviceOk ''b.wav''])
   \<and> \<not> is_recording (run AppConfig [Toggle DeviceOk ''a.wav'', Callback [1 / 2], Toggle DeviceOk ''b.wav''])
   \<and> is_busy (toggle_recording DeviceOk ''c.wav''
        (run AppConfig [Toggle DeviceOk ''a.wav'', Callback [1 / 2], Toggle DeviceOk ''b.wav'']))
   \<and> \<not> is_recording (toggle_recording DeviceOk ''c.wav''
        (run AppConfig [Toggle DeviceOk ''a.wav'', Callback [1 / 2], Toggle DeviceOk ''b.wav'']))"
proof -
  let ?evs = "[Toggle DeviceOk ''a.wav'', Callback [1 / 2], Toggle DeviceOk ''b.wav'']"
  have b: "is_busy (run AppConfig ?evs)" by code_simp
  from single_flight [of AppConfig ?evs DeviceOk "''c.wav''"] b show ?thesis by simp
qed

section \<open>The recorder: the claim\<close>

text \<open>
  C7. When \<open>stop\<close> is called on a recorder whose stream is open and that has gathered
  no chunk, it fails with the no-audio error (a \<open>RuntimeError\<close> with that message in
  the source), writes no file, and leaves the stream handle cleared, so that a \<open>start\<close>
  that follows, on a working device, succeeds and opens a new stream.
\<close>

theorem stop_without_frames:
  assumes "stream r = Some h" and "frames r = []"
  shows "fst (stop tmp r fs) =
           Inl (RuntimeError ''Geen audio ontvangen. Controleer microfooninstellingen.'')
    \<and> stream (fst (snd (stop tmp r fs))) = None
    \<and> snd (snd (stop tmp r fs)) = fs
    \<and> fst (start DeviceOk (fst (snd (stop tmp r fs)))) = Inr ()
    \<and> stream (snd (start DeviceOk (fst (snd (stop tmp r fs))))) = Some Started"
  using assms by (simp add: stop_def start_def Let_def)

theorem stop_without_frames_witness:
  "stream (snd (start DeviceOk (AudioRecorder 16000))) = Some Started
   \<and> frames (snd (start DeviceOk (AudioRecorder 16000))) = []
   \<and> fst (stop ''t.wav'' (snd (start DeviceOk (AudioRecorder 16000))) Map.empty) =
           Inl (RuntimeError ''Geen audio ontvangen. Controleer microfooninstellingen.'')
   \<and> fst (start DeviceOk (fst (snd (stop ''t.wav'' (snd (start DeviceOk (AudioRecorder 16000))) Map.empty)))) = Inr ()"
proof -
  let ?r = "snd (start DeviceOk (AudioRecorder 16000))"
  have a: "stream ?r = Some Started" by (simp add: start_def AudioRecorder_def)
  have b: "frames ?r = []" by (simp add: start_def AudioRecorder_def)
  from stop_without_frames [OF a b, of "''t.wav''" Map.empty] a b show ?thesis by simp
qed

section \<open>The transcriber factory: the claim\<close>

text \<open>
  C8. For a configuration whose engine is none of \<open>whisper\<close>, \<open>assemblyai\<close>,
  \<open>google\<close>, \<open>gemini\<close>, the factory fails with the invalid-engine error (a
  \<open>ValueError\<close> in the source) whatever the environment, with no constructor run and
  nothing loaded or allocated.  For one of the four names, a transcriber that the
  factory returns is the variant of that name, and the factory does return one
  wherever the packages, keys and services that the variants need are in place.
\<close>

theorem create_transcriber_engine:
  "(engine config \<notin> {''whisper'', ''assemblyai'', ''google'', ''gemini''} \<longrightarrow>
      create_transcriber env config =
        (Inl (ValueError ''Ongeldige engine. Kies whisper, assemblyai, google of gemini.''), []))
   \<and> (engine config \<in> {''whisper'', ''assemblyai'', ''google'', ''gemini''} \<longrightarrow>
        (\<forall>t. fst (create_transcriber env config) = Inr t \<longrightarrow> variant t = engine config)
      \<and> (provisioned env \<longrightarrow> (\<exists>t. fst (create_transcriber env config) = Inr t)))"
proof (intro conjI impI allI)
  assume "engine config \<notin> {''whisper'', ''assemblyai'', ''google'', ''gemini''}"
  then show "create_transcriber env config =
        (Inl (ValueError ''Ongeldige engine. Kies whisper, assemblyai, google of gemini.''), [])"
    by (simp add: create_transcriber_def)
next
  fix t
  assume "engine config \<in> {''whisper'', ''assemblyai'', ''google'', ''gemini''}"
    and "fst (create_transcriber env config) = Inr t"
  then show "variant t = engine config"
    by (auto simp: create_transcriber_def constructed_variant split: if_splits)
next
  assume "engine config \<in> {''whisper'', ''assemblyai'', ''google'', ''gemini''}"
    and "provisioned env"
  then show "\<exists>t. fst (create_transcriber env config) = Inr t"
    using provisioned_constructs [of env config]
    by (auto simp: create_transcriber_def)
qed

theorem create_transcriber_engine_witness:
  "create_transcriber
      \<lparr>has_faster_whisper = True, has_requests = True, has_google_speech = True,
       has_genai = True, ASSEMBLYAI_API_KEY = ''k1'', GEMINI_API_KEY = ''k2'',
       whisper_model_error = None, speech_client_error = None\<rparr>
      (AppConfig\<lparr>engine := ''vosk''\<rparr>) =
     (Inl (ValueError ''Ongeldige engine. Kies whisper, assemblyai, google of gemini.''), [])
   \<and> (\<exists>t. fst (create_transcriber
      \<lparr>has_faster_whisper = True, has_requests = True, has_google_speech = True,
       has_genai = True, ASSEMBLYAI_API_KEY = ''k1'', GEMINI_API_KEY = ''k2'',
       whisper_model_error = None, speech_client_error = None\<rparr>
      (AppConfig\<lparr>engine := ''google''\<rparr>)) = Inr t \<and> variant t = ''google'')"
proof -
  let ?env = "\<lparr>has_faster_whisper = True, has_requests = True, has_google_speech = True,
       has_genai = True, ASSEMBLYAI_API_KEY = ''k1'', GEMINI_API_KEY = ''k2'',
       whisper_model_error = None, speech_client_error = None\<rparr>"
  have p: "provisioned ?env" by (simp add: provisioned_def)
  have a: "engine (AppConfig\<lparr>engine := ''vosk''\<rparr>)
             \<notin> {''whisper'', ''assemblyai'', ''google'', ''gemini''}" by simp
  have b: "engine (AppConfig\<lparr>engine := ''google''\<rparr>)
             \<in> {''whisper'', ''assemblyai'', ''google'', ''gemini''}" by simp
  from create_transcriber_engine [of "AppConfig\<lparr>engine := ''vosk''\<rparr>" ?env] a
  have one: "create_transcriber ?env (AppConfig\<lparr>engine := ''vosk''\<rparr>) =
     (Inl (ValueError ''Ongeldige engine. Kies whisper, assemblyai, google of gemini.''), [])"
    by blast
  from create_transcriber_engine [of "AppConfig\<lparr>engine := ''google''\<rparr>" ?env] b p
  have two: "\<exists>t. fst (create_transcriber ?env (AppConfig\<lparr>engine := ''google''\<rparr>)) = Inr t
               \<and> variant t = ''google''"
    by auto
  from one two show ?thesis by blast
qed
section \<open>Hotkey chords: the claim\<close>

text \<open>
  C4, as amended.  Whenever \<open>normalize_hotkey\<close> accepts a chord, its result has one
  token for each non-blank part of the input, in order.  Reading each part trimmed and
  in lower case: the aliases \<open>ctrl\<close>/\<open>control\<close>, \<open>alt\<close>/\<open>option\<close>, \<open>shift\<close> and
  \<open>cmd\<close>/\<open>command\<close>/\<open>win\<close>/\<open>windows\<close> give \<open><ctrl>\<close>, \<open><alt>\<close>, \<open><shift>\<close> and
  \<open><cmd>\<close>; a part that starts with \<open><\<close> and ends with \<open>>\<close> gives that trimmed,
  lower-case form of itself (so it is unchanged exactly when it was already trimmed and
  in lower case); and normalising the result again returns it.
\<close>

theorem normalize_hotkey_aliases_and_idempotent:
  assumes "normalize_hotkey chord = Inr r"
  shows "length (split_on CHR ''+'' r) = length (hotkey_parts chord)
    \<and> (\<forall>i < length (hotkey_parts chord).
         let raw = lower (hotkey_parts chord ! i); tok = split_on CHR ''+'' r ! i
         in (raw \<in> {''ctrl'', ''control''} \<longrightarrow> tok = ''<ctrl>'')
          \<and> (raw \<in> {''alt'', ''option''} \<longrightarrow> tok = ''<alt>'')
          \<and> (raw = ''shift'' \<longrightarrow> tok = ''<shift>'')
          \<and> (raw \<in> {''cmd'', ''command'', ''win'', ''windows''} \<longrightarrow> tok = ''<cmd>'')
          \<and> (starts_with raw ''<'' \<and> ends_with raw ''>'' \<longrightarrow> tok = raw))
    \<and> normalize_hotkey r = Inr r"
proof -
  note res = normalize_hotkey_result [OF assms]
  have "\<forall>i < length (hotkey_parts chord).
         let raw = lower (hotkey_parts chord ! i); tok = normalize_part (hotkey_parts chord ! i)
         in (raw \<in> {''ctrl'', ''control''} \<longrightarrow> tok = ''<ctrl>'')
          \<and> (raw \<in> {''alt'', ''option''} \<longrightarrow> tok = ''<alt>'')
          \<and> (raw = ''shift'' \<longrightarrow> tok = ''<shift>'')
          \<and> (raw \<in> {''cmd'', ''command'', ''win'', ''windows''} \<longrightarrow> tok = ''<cmd>'')
          \<and> (starts_with raw ''<'' \<and> ends_with raw ''>'' \<longrightarrow> tok = raw)"
    by (auto simp: Let_def normalize_part_def token_map_def starts_with_def ends_with_def)
  then show ?thesis using res by (simp add: Let_def)
qed

theorem normalize_hotkey_aliases_and_idempotent_witness:
  "normalize_hotkey ''Control + <ALT>+d'' = Inr ''<ctrl>+<alt>+d''
   \<and> normalize_hotkey ''<ctrl>+<alt>+d'' = Inr ''<ctrl>+<alt>+d''"
proof -
  have h: "normalize_hotkey ''Control + <ALT>+d'' = Inr ''<ctrl>+<alt>+d''" by code_simp
  from normalize_hotkey_aliases_and_idempotent [OF h] show ?thesis using h by simp
qed

text \<open>
  C4 as first stated says that a bracketed token passes through unchanged.  The source
  lower-cases every part before it looks at the brackets, so \<open><Ctrl>\<close> comes out as
  \<open><ctrl>\<close>.
\<close>

theorem normalize_hotkey_bracketed_counterexample:
  "starts_with ''<Ctrl>'' ''<'' \<and> ends_with ''<Ctrl>'' ''>''
   \<and> normalize_hotkey ''<Ctrl>'' = Inr ''<ctrl>''
   \<and> ''<ctrl>'' \<noteq> ''<Ctrl>''"
  by code_simp

section \<open>The configuration: the claims\<close>

text \<open>
  C5, as amended.  When the file does not exist, \<open>load_config\<close> returns the documented
  defaults (with the three credential fields empty).  When the file exists and parses,
  and \<open>sample_rate\<close> is not an infinite float, the load does not fail, and:
  \<open>sample_rate\<close> takes its default 16000 whenever its value cannot be read as an integer
  (the key is absent, or holds a string that is no integer, a NaN, an array, a table or a
  date); \<open>append_space\<close> takes its default only when the key is absent or holds an
  array, a table or a date, while a string there reads as true exactly when, trimmed and
  in lower case, it is one of \<open>1\<close>, \<open>true\<close>, \<open>yes\<close>, \<open>y\<close>, \<open>on\<close>, and as false
  otherwise; every text field takes its default when its key is absent and otherwise
  the text of whatever value is there (the engine in lower case).
\<close>

theorem load_config_fallbacks:
  "(fs config_path = None \<longrightarrow>
      load_config float_repr loads fs config_path =
        Inr \<lparr>engine = ''whisper'', hotkey = ''<ctrl>+<alt>+d'', language = ''nl'',
             sample_rate = 16000, append_space = True, whisper_model = ''small'',
             whisper_device = ''auto'', whisper_compute_type = ''int8'',
             assemblyai_api_key = '''', google_credentials_path = '''',
             gemini_api_key = ''''\<rparr>)
   \<and> (fs config_path = Some content \<and> loads content = Inr data
        \<and> data ''sample_rate'' \<noteq> Some (TFloat PosInf)
        \<and> data ''sample_rate'' \<noteq> Some (TFloat NegInf) \<longrightarrow>
      (\<exists>config. load_config float_repr loads fs config_path = Inr config
         \<and> (data ''sample_rate'' = None \<or> data ''sample_rate'' = Some (TFloat NaN)
              \<or> (\<exists>t. data ''sample_rate'' = Some (TOther t))
              \<or> (\<exists>s. data ''sample_rate'' = Some (TStr s) \<and> int_of_str s = None)
             \<longrightarrow> sample_rate config = 16000)
         \<and> (data ''append_space'' = None \<or> (\<exists>t. data ''append_space'' = Some (TOther t))
             \<longrightarrow> append_space config = True)
         \<and> (\<forall>s. data ''append_space'' = Some (TStr s) \<longrightarrow>
               append_space config = (lower (strip s) \<in> {''1'', ''true'', ''yes'', ''y'', ''on''}))
         \<and> engine config = (case data ''engine'' of None \<Rightarrow> ''whisper''
                             | Some v \<Rightarrow> lower (str float_repr v))
         \<and> hotkey config = (case data ''hotkey'' of None \<Rightarrow> ''<ctrl>+<alt>+d''
                             | Some v \<Rightarrow> str float_repr v)
         \<and> language config = (case data ''language'' of None \<Rightarrow> ''nl''
                               | Some v \<Rightarrow> str float_repr v)
         \<and> whisper_model config = (case data ''whisper_model'' of None \<Rightarrow> ''small''
                                    | Some v \<Rightarrow> str float_repr v)
         \<and> whisper_device config = (case data ''whisper_device'' of None \<Rightarrow> ''auto''
                                     | Some v \<Rightarrow> str float_repr v)
         \<and> whisper_compute_type config =
             (case data ''whisper_compute_type'' of None \<Rightarrow> ''int8''
              | Some v \<Rightarrow> str float_repr v)))"
proof (intro conjI impI)
  assume "fs config_path = None"
  then show "load_config float_repr loads fs config_path =
        Inr \<lparr>engine = ''whisper'', hotkey = ''<ctrl>+<alt>+d'', language = ''nl'',
             sample_rate = 16000, append_space = True, whisper_model = ''small'',
             whisper_device = ''auto'', whisper_compute_type = ''int8'',
             assemblyai_api_key = '''', google_credentials_path = '''',
             gemini_api_key = ''''\<rparr>"
    by (simp add: load_config_def AppConfig_def)
next
  assume h: "fs config_path = Some content \<and> loads content = Inr data
        \<and> data ''sample_rate'' \<noteq> Some (TFloat PosInf)
        \<and> data ''sample_rate'' \<noteq> Some (TFloat NegInf)"
  then obtain rate where rate: "as_int (data ''sample_rate'') 16000 = Inr rate"
    using as_int_total by blast
  have l: "load_config float_repr loads fs config_path = config_of_data float_repr data"
    using h by (simp add: load_config_def)
  note c = config_of_data_fields [of data rate float_repr, OF rate]
  have fb: "data ''sample_rate'' = None \<or> data ''sample_rate'' = Some (TFloat NaN)
              \<or> (\<exists>t. data ''sample_rate'' = Some (TOther t))
              \<or> (\<exists>s. data ''sample_rate'' = Some (TStr s) \<and> int_of_str s = None)
            \<Longrightarrow> rate = 16000"
    using as_int_fallback [of "data ''sample_rate''" 16000] rate by simp
  show "\<exists>config. load_config float_repr loads fs config_path = Inr config
         \<and> (data ''sample_rate'' = None \<or> data ''sample_rate'' = Some (TFloat NaN)
              \<or> (\<exists>t. data ''sample_rate'' = Some (TOther t))
              \<or> (\<exists>s. data ''sample_rate'' = Some (TStr s) \<and> int_of_str s = None)
             \<longrightarrow> sample_rate config = 16000)
         \<and> (data ''append_space'' = None \<or> (\<exists>t. data ''append_space'' = Some (TOther t))
             \<longrightarrow> append_space config = True)
         \<and> (\<forall>s. data ''append_space'' = Some (TStr s) \<longrightarrow>
               append_space config = (lower (strip s) \<in> {''1'', ''true'', ''yes'', ''y'', ''on''}))
         \<and> engine config = (case data ''engine'' of None \<Rightarrow> ''whisper''
                             | Some v \<Rightarrow> lower (str float_repr v))
         \<and> hotkey config = (case data ''hotkey'' of None \<Rightarrow> ''<ctrl>+<alt>+d''
                             | Some v \<Rightarrow> str float_repr v)
         \<and> language config = (case data ''language'' of None \<Rightarrow> ''nl''
                               | Some v \<Rightarrow> str float_repr v)
         \<and> whisper_model config = (case data ''whisper_model'' of None \<Rightarrow> ''small''
                                    | Some v \<Rightarrow> str float_repr v)
         \<and> whisper_device config = (case data ''whisper_device'' of None \<Rightarrow> ''auto''
                                     | Some v \<Rightarrow> str float_repr v)
         \<and> whisper_compute_type config =
             (case data ''whisper_compute_type'' of None \<Rightarrow> ''int8''
              | Some v \<Rightarrow> str float_repr v)"
    unfolding l c
    apply (rule exI, rule conjI, rule refl)
    using fb
    apply (simp split: option.splits add: as_str_cases)
    apply (auto simp: as_bool_cases lower_def lower_char_def)
    done
qed

theorem load_config_fallbacks_witness:
  "(\<exists>config.
      load_config no_float_repr toml_loads
        [''voice-typer.toml'' \<mapsto>
           ''sample_rate = '' @ [dquote] @ ''fast'' @ [dquote, newline]
             @ ''append_space = '' @ [dquote] @ ''maybe'' @ [dquote, newline]]
        ''voice-typer.toml'' = Inr config
      \<and> sample_rate config = 16000 \<and> append_space config = False \<and> language config = ''nl'')
   \<and> load_config no_float_repr toml_loads Map.empty ''voice-typer.toml'' = Inr AppConfig"
proof -
  let ?content = "''sample_rate = '' @ [dquote] @ ''fast'' @ [dquote, newline]
             @ ''append_space = '' @ [dquote] @ ''maybe'' @ [dquote, newline]"
  let ?fs = "[''voice-typer.toml'' \<mapsto> ?content]"
  have "case toml_loads ?content of
          Inl exc \<Rightarrow> False
        | Inr d \<Rightarrow> d ''sample_rate'' = Some (TStr ''fast'')
                  \<and> d ''append_space'' = Some (TStr ''maybe'') \<and> d ''language'' = None"
    by code_simp
  then obtain data where b: "toml_loads ?content = Inr data"
    and d: "data ''sample_rate'' = Some (TStr ''fast'')"
      "data ''append_space'' = Some (TStr ''maybe'')" "data ''language'' = None"
    by (cases "toml_loads ?content") auto
  have a: "?fs ''voice-typer.toml'' = Some ?content" by simp
  have e: "int_of_str ''fast'' = None" by code_simp
  have f: "lower (strip ''maybe'') \<notin> {''1'', ''true'', ''yes'', ''y'', ''on''}" by code_simp
  from load_config_fallbacks
    [of ?fs "''voice-typer.toml''" no_float_repr toml_loads ?content data] a b d e f
  have one: "\<exists>config. load_config no_float_repr toml_loads ?fs ''voice-typer.toml'' = Inr config
      \<and> sample_rate config = 16000 \<and> append_space config = False \<and> language config = ''nl''"
    by auto
  from load_config_fallbacks [of Map.empty "''voice-typer.toml''" no_float_repr toml_loads]
  have two: "load_config no_float_repr toml_loads Map.empty ''voice-typer.toml'' = Inr AppConfig"
    by (simp add: AppConfig_def)
  from one two show ?thesis by blast
qed

text \<open>
  C5 as first stated gives a string that is no boolean the default of \<open>append_space\<close>,
  which is true.  The source reads every string outside its list of affirmative words
  as false.
\<close>

theorem load_config_bool_string_counterexample:
  "load_config no_float_repr toml_loads
     [''voice-typer.toml'' \<mapsto> ''append_space = '' @ [dquote] @ ''maybe'' @ [dquote]]
     ''voice-typer.toml''
   = Inr (AppConfig\<lparr>append_space := False\<rparr>)
   \<and> append_space AppConfig = True"
  by code_simp
text \<open>
  C6. Saving a valid configuration and loading it back should give the same
  configuration.  \<open>quote\<close> escapes the backslash and the double quote only, so a
  text with a line break in it is written raw between the quotes, where the TOML
  reader does not accept it: for the default configuration with the key
  \<open>ab\<close>, line break, \<open>cd\<close> for AssemblyAI, the load after the save raises the
  reader's decode error.
\<close>

theorem save_load_control_character:
  "load_config no_float_repr toml_loads
     (save_config (AppConfig\<lparr>assemblyai_api_key := ''ab'' @ [newline] @ ''cd''\<rparr>)
        Map.empty ''voice-typer.toml'')
     ''voice-typer.toml''
   = Inl TOMLDecodeError"
  by (simp add: load_config_def toml_loads_def save_config_def config_lines_def AppConfig_def
      quote_def replace_char_def show_int_def show_nat_small show_nat_large digit_char_eval
      dquote_def backslash_def newline_def parse_line_def parse_value_def end_of_statement_def
      is_ws_def tab_def bare_key_char_def illegal_ctrl_def starts_with_def basic_escape_def
      parse_dec_def unsigned_dec_def is_digit_def digit_value_def Let_def)

section \<open>Language codes: the claims\<close>

text \<open>
  C9. The locale derivation of the Google variant sends the bare code \<open>nl\<close> to
  \<open>nl-NL\<close>, and gives back unchanged every code that already contains a hyphen,
  such as \<open>en-GB\<close>.
\<close>

theorem google_language_nl_and_qualified:
  "normalize_google_language ''nl'' = ''nl-NL''
   \<and> (CHR ''-'' \<in> set code \<longrightarrow> normalize_google_language code = code)"
  by (simp add: normalize_google_language_def google_defaults_def lower_def lower_char_def)

theorem google_language_nl_and_qualified_witness:
  "CHR ''-'' \<in> set ''en-GB'' \<and> normalize_google_language ''en-GB'' = ''en-GB''"
  using google_language_nl_and_qualified [of "''en-GB''"] by simp

text \<open>
  C10. A code without a hyphen whose lower-case form is none of \<open>nl\<close>, \<open>en\<close>,
  \<open>de\<close>, \<open>fr\<close>, \<open>es\<close> comes back unchanged: the table of default regions has
  these five entries only, and nothing else is expanded.
\<close>

theorem google_language_outside_table:
  assumes "CHR ''-'' \<notin> set code"
    and "lower code \<notin> {''nl'', ''en'', ''de'', ''fr'', ''es''}"
  shows "normalize_google_language code = code"
  using assms by (simp add: normalize_google_language_def google_defaults_def)

theorem google_language_outside_table_witness:
  "CHR ''-'' \<notin> set ''PT'' \<and> lower ''PT'' \<notin> {''nl'', ''en'', ''de'', ''fr'', ''es''}
   \<and> normalize_google_language ''PT'' = ''PT''"
proof -
  have a: "CHR ''-'' \<notin> set ''PT''" by simp
  have b: "lower ''PT'' \<notin> {''nl'', ''en'', ''de'', ''fr'', ''es''}"
    by code_simp
  show ?thesis using a b google_language_outside_table [OF a b] by simp
qed

end
